theory Spec2Isabelle
  imports Main "HOL-Library.AList" "HOL-Library.Char_ord" "HOL-Library.List_Lexorder"
begin


section \<open>Python string operations used by the three scripts\<close>

text \<open>
  A Python \<open>str\<close> is modelled as a \<^typ>\<open>string\<close>; one \<^typ>\<open>char\<close> stands for one
  code point below 256. \<open>isspace\<close> lists the code points below 256 that
  \<open>str.strip()\<close> removes.
\<close>

definition newline :: char where
  "newline = CHR 0x0A"

definition isspace :: "char \<Rightarrow> bool" where
  "isspace c = (c \<in> set [CHR 0x09, CHR 0x0A, CHR 0x0B, CHR 0x0C, CHR 0x0D,
     CHR 0x1C, CHR 0x1D, CHR 0x1E, CHR 0x1F, CHR 0x20, CHR 0x85, CHR 0xA0])"

definition lstrip :: "string \<Rightarrow> string" where
  "lstrip s = dropWhile isspace s"

definition rstrip :: "string \<Rightarrow> string" where
  "rstrip s = rev (dropWhile isspace (rev s))"

text \<open>\<open>s.strip()\<close>\<close>

definition strip :: "string \<Rightarrow> string" where
  "strip s = rstrip (lstrip s)"

text \<open>\<open>line.rstrip('\n')\<close>\<close>

definition rstrip_newline :: "string \<Rightarrow> string" where
  "rstrip_newline s = rev (dropWhile (\<lambda>c. c = newline) (rev s))"

text \<open>\<open>s.startswith(p)\<close> and \<open>s.endswith(p)\<close>\<close>

definition startswith :: "string \<Rightarrow> string \<Rightarrow> bool" where
  "startswith s p = (take (length p) s = p)"

definition endswith :: "string \<Rightarrow> string \<Rightarrow> bool" where
  "endswith s p = (length p \<le> length s \<and> drop (length s - length p) s = p)"

text \<open>\<open>sub in s\<close>\<close>

fun contains :: "string \<Rightarrow> string \<Rightarrow> bool" where
  "contains sub [] = (sub = [])"
| "contains sub (c # cs) = (startswith (c # cs) sub \<or> contains sub cs)"

text \<open>\<open>s.lower()\<close>, on the ASCII letters.\<close>

definition lower_char :: "char \<Rightarrow> char" where
  "lower_char c =
     (case map_of (zip ''ABCDEFGHIJKLMNOPQRSTUVWXYZ'' ''abcdefghijklmnopqrstuvwxyz'') c of
        Some d \<Rightarrow> d
      | None \<Rightarrow> c)"

definition lower :: "string \<Rightarrow> string" where
  "lower s = map lower_char s"

text \<open>\<open>sep.join(parts)\<close>\<close>

fun join :: "string \<Rightarrow> string list \<Rightarrow> string" where
  "join sep [] = []"
| "join sep [p] = p"
| "join sep (p # q # ps) = p @ sep @ join sep (q # ps)"

text \<open>\<open>content.split('\n')\<close>: the pieces between newlines, a last empty piece included.\<close>

fun split_newline :: "string \<Rightarrow> string list" where
  "split_newline [] = [[]]"
| "split_newline (c # cs) =
     (if c = newline then [] # split_newline cs
      else (case split_newline cs of
              [] \<Rightarrow> [[c]]
            | l # ls \<Rightarrow> (c # l) # ls))"

text \<open>
  Iterating over a file opened for reading: each line with its terminating newline,
  the last line without one when the content does not end with a newline.
\<close>

fun file_lines :: "string \<Rightarrow> string list" where
  "file_lines [] = []"
| "file_lines (c # cs) =
     (if c = newline then [newline] # file_lines cs
      else (case file_lines cs of
              [] \<Rightarrow> [[c]]
            | l # ls \<Rightarrow> (c # l) # ls))"

text \<open>
  Reading in text mode translates the line endings CR LF and CR to a newline before the
  program sees the text.
\<close>

fun universal_newlines :: "string \<Rightarrow> string" where
  "universal_newlines [] = []"
| "universal_newlines [c] = (if c = CHR 0x0D then [newline] else [c])"
| "universal_newlines (c # d # ds) =
     (if c = CHR 0x0D \<and> d = newline then newline # universal_newlines ds
      else if c = CHR 0x0D then newline # universal_newlines (d # ds)
      else c # universal_newlines (d # ds))"

section \<open>Stage 1: the Extractor (\<open>DocxParagraphExtractor\<close>)\<close>

text \<open>
  The document object of the python-docx library, as far as \<open>extract_paragraphs\<close> reads
  it: the target references of the document part's relationships, the body tables (rows
  of cell texts), the sections with the paragraph texts of their header and footer, and
  the texts of the body paragraphs.
\<close>

record docx_section =
  header_paragraphs :: "string list"
  footer_paragraphs :: "string list"

record docx =
  part_rels :: "string list"
  doc_tables :: "string list list list"
  doc_sections :: "docx_section list"
  body_paragraphs :: "string list"

record issues =
  images :: nat
  tables :: nat
  headers :: nat
  footers :: nat

definition extract_paragraphs :: "docx \<Rightarrow> string list \<times> issues" where
  "extract_paragraphs doc =
     (let issues = \<lparr>
            images = length (filter (\<lambda>target_ref. contains ''image'' (lower target_ref))
                               (part_rels doc)),
            tables = length (doc_tables doc),
            headers = (case doc_sections doc of
                         [] \<Rightarrow> 0
                       | s # _ \<Rightarrow> length (header_paragraphs s)),
            footers = (case doc_sections doc of
                         [] \<Rightarrow> 0
                       | s # _ \<Rightarrow> length (footer_paragraphs s)) \<rparr>;
          paragraphs = fold (\<lambda>para paragraphs.
                         let text = strip para
                         in if text \<noteq> [] then paragraphs @ [text] else paragraphs)
                         (body_paragraphs doc) []
      in (paragraphs, issues))"

section \<open>Stage 1: the Aligner/Writer (\<open>process_document_set\<close>)\<close>

text \<open>
  A path is the list of its components. The files the scripts write are a map from paths
  to contents; \<open>write_text\<close> creates or overwrites one entry. Creating directories and
  failures of the operating system while writing are outside the model.
\<close>

type_synonym path = "string list"

type_synonym filesystem = "path \<rightharpoonup> string"

datatype error =
    PackageError string
  | ValueError
  | IsADirectoryError string
  | NotADirectoryError string

definition write_text :: "path \<Rightarrow> string \<Rightarrow> filesystem \<Rightarrow> filesystem" where
  "write_text p content fs = fs(p \<mapsto> content)"

text \<open>The separator \<open>'\n\n'\<close> of stage 1's output and discard files.\<close>

definition paragraph_sep :: string where
  "paragraph_sep = [newline, newline]"

fun max_list :: "nat list \<Rightarrow> nat" where
  "max_list (x # xs) = (case xs of [] \<Rightarrow> x | _ \<Rightarrow> max x (max_list xs))"

text \<open>
  Lines 74 to 79: every language version is opened and extracted, in the sorted order of
  the language codes. \<open>Document\<close> stands for the library call that opens a file; it
  returns the document object or raises.
\<close>

fun extract_all ::
  "(path \<Rightarrow> error + docx) \<Rightarrow> (string \<times> path) list \<Rightarrow> error + (string \<times> string list) list" where
  "extract_all Document [] = Inr []"
| "extract_all Document ((lang_code, doc_path) # rest) =
     (case Document doc_path of
        Inl e \<Rightarrow> Inl e
      | Inr doc \<Rightarrow>
          (case extract_all Document rest of
             Inl e \<Rightarrow> Inl e
           | Inr all_paragraphs \<Rightarrow>
               Inr ((lang_code, fst (extract_paragraphs doc)) # all_paragraphs)))"

text \<open>Lines 130 to 137: the tail of every over-long language goes to its discard file.\<close>

definition save_discarded ::
  "(string \<times> string list) list \<Rightarrow> nat \<Rightarrow> path \<Rightarrow> filesystem \<Rightarrow> filesystem" where
  "save_discarded all_paragraphs min_count discarded_folder fs =
     fold (\<lambda>(lang_code, paragraphs) fs.
             if length paragraphs > min_count
             then write_text (discarded_folder @ [lang_code @ ''.txt''])
                    (join paragraph_sep (drop min_count paragraphs)) fs
             else fs)
       all_paragraphs fs"

text \<open>Lines 151 to 158: one output file per language, in sorted order of the codes.\<close>

definition save_parallel ::
  "(string \<times> string list) list \<Rightarrow> path \<Rightarrow> filesystem \<Rightarrow> filesystem" where
  "save_parallel all_paragraphs output_folder fs =
     fold (\<lambda>(lang_code, paragraphs) fs.
             write_text (output_folder @ [lang_code @ ''.txt''])
               (join paragraph_sep paragraphs) fs)
       (sort_key fst all_paragraphs) fs"

text \<open>
  Lines 105 to 158, the Aligner/Writer proper: \<open>all_paragraphs\<close> is the dictionary from
  language code to extracted paragraphs, as an association list in insertion order.
  \<open>min\<close> of no counts raises.
\<close>

definition align_write ::
  "(string \<times> string list) list \<Rightarrow> path \<Rightarrow> path \<Rightarrow> string \<Rightarrow> string \<Rightarrow> filesystem
     \<Rightarrow> error + filesystem" where
  "align_write all_paragraphs output_base discarded_base folder_name doc_name fs =
     (if all_paragraphs = [] then Inl ValueError
      else
        let counts = map (\<lambda>(lang, paras). (lang, length paras)) all_paragraphs;
            min_count = min_list (map snd counts);
            max_count = max_list (map snd counts);
            fs1 = (if min_count \<noteq> max_count
                   then save_discarded all_paragraphs min_count (discarded_base @ [doc_name]) fs
                   else fs);
            trimmed = map (\<lambda>(lang_code, paragraphs). (lang_code, take min_count paragraphs))
                        all_paragraphs
        in Inr (save_parallel trimmed (output_base @ [folder_name, doc_name]) fs1))"

definition process_document_set ::
  "(path \<Rightarrow> error + docx) \<Rightarrow> (string \<times> path) list \<Rightarrow> path \<Rightarrow> path \<Rightarrow> string \<Rightarrow> string
     \<Rightarrow> filesystem \<Rightarrow> error + filesystem" where
  "process_document_set Document doc_paths output_base discarded_base folder_name doc_name fs =
     (case extract_all Document (sort_key fst doc_paths) of
        Inl e \<Rightarrow> Inl e
      | Inr all_paragraphs \<Rightarrow>
          align_write all_paragraphs output_base discarded_base folder_name doc_name fs)"

section \<open>Stage 1: discovery (\<open>discover_document_sets\<close>)\<close>

definition folders :: "string list" where
  "folders = [''Presidente'', ''Consejo de Ministros'', ''Gobierno XV'', ''Actualidad'']"

text \<open>
  Each pattern is \<open>[_-](alt|...|alt)\.docx$\<close>; the table keeps the alternatives. The
  names searched come from \<open>glob('*.docx')\<close>, so they end with \<open>.docx\<close> and \<open>$\<close> is
  the end of the name.
\<close>

definition language_patterns :: "(string \<times> string list) list" where
  "language_patterns =
     [(''castellano'', [''castellano'']),
      (''ca_ES'', [''ca-ES'', ''ca_ES'']),
      (''vl_ES'', [''ca-ES-valencia'', ''va_ES'', ''vl_ES'']),
      (''gl_ES'', [''gl-ES'', ''gl_ES'', ''ga_ES'']),
      (''eu_ES'', [''eu-ES'', ''eu_ES''])]"

text \<open>
  \<open>re.search(pattern, name)\<close> followed by \<open>re.sub(pattern, '', name)\<close>: the name
  without the matched suffix, or \<open>None\<close> when the pattern does not match.
\<close>

definition match_pattern :: "string list \<Rightarrow> string \<Rightarrow> string option" where
  "match_pattern alts name =
     (case filter (endswith name)
             (concat (map (\<lambda>alt. [CHR ''_'' # alt @ ''.docx'', CHR ''-'' # alt @ ''.docx'']) alts)) of
        [] \<Rightarrow> None
      | suffix # _ \<Rightarrow> Some (take (length name - length suffix) name))"

text \<open>Lines 204 to 208: the first pattern that matches wins.\<close>

fun classify_with :: "(string \<times> string list) list \<Rightarrow> string \<Rightarrow> (string \<times> string) option" where
  "classify_with [] name = None"
| "classify_with ((lang_code, alts) # rest) name =
     (case match_pattern alts name of
        Some base_name \<Rightarrow> Some (lang_code, base_name)
      | None \<Rightarrow> classify_with rest name)"

definition classify :: "string \<Rightarrow> (string \<times> string) option" where
  "classify name = classify_with language_patterns name"

definition glob_docx :: "string list \<Rightarrow> string list" where
  "glob_docx names = filter (\<lambda>name. endswith name ''.docx'') names"

text \<open>
  Lines 196 to 213 for one file: \<open>file_groups\<close> maps a base name to the dictionary from
  language code to path.
\<close>

definition group_file ::
  "path \<Rightarrow> string \<Rightarrow> (string \<times> (string \<times> path) list) list
     \<Rightarrow> (string \<times> (string \<times> path) list) list" where
  "group_file folder_path name file_groups =
     (if startswith name ''~'' then file_groups
      else
        (case classify name of
           None \<Rightarrow> file_groups
         | Some (lang_found, base_name) \<Rightarrow>
             if lang_found \<noteq> [] \<and> base_name \<noteq> []
             then
               let lang_files = (case map_of file_groups base_name of
                                   None \<Rightarrow> []
                                 | Some m \<Rightarrow> m)
               in AList.update base_name
                    (AList.update lang_found (folder_path @ [name]) lang_files) file_groups
             else file_groups))"

text \<open>Lines 194 to 219 for one folder, given the names in it.\<close>

definition discover_folder ::
  "path \<Rightarrow> string list \<Rightarrow> (string \<times> (string \<times> path) list) list" where
  "discover_folder folder_path names =
     (let file_groups = fold (group_file folder_path) (glob_docx names) []
      in filter (\<lambda>(base_name, lang_files). length lang_files = 5) file_groups)"

text \<open>
  \<open>listing folder_name\<close> is the list of names in that subfolder of \<open>base_path\<close>, or
  \<open>None\<close> when the subfolder does not exist.
\<close>

definition discover_document_sets ::
  "path \<Rightarrow> (string \<Rightarrow> string list option)
     \<Rightarrow> (string \<times> (string \<times> (string \<times> path) list) list) list" where
  "discover_document_sets base_path listing =
     fold (\<lambda>folder_name all_sets.
             (case listing folder_name of
                None \<Rightarrow> all_sets
              | Some names \<Rightarrow>
                  let complete_sets = discover_folder (base_path @ [folder_name]) names
                  in if complete_sets \<noteq> []
                     then AList.update folder_name complete_sets all_sets
                     else all_sets))
       folders []"

section \<open>Stage 1: the batch driver (\<open>main\<close>)\<close>

text \<open>
  The lines printed in the batch loop that the properties below speak of: the banner of
  a document set, with the counter, folder and document name, and the error line, with
  the document name and the exception.
\<close>

datatype event =
    Processing nat string string
  | ErrorProcessing string error

record main_state =
  disk :: filesystem
  doc_counter :: nat
  successful :: nat
  failed :: nat
  printed :: "event list"

text \<open>Lines 259 to 275: one document set, inside \<open>try\<close> and \<open>except Exception\<close>.\<close>

definition process_one ::
  "(path \<Rightarrow> error + docx) \<Rightarrow> path \<Rightarrow> path \<Rightarrow> string \<Rightarrow> string \<Rightarrow> (string \<times> path) list
     \<Rightarrow> main_state \<Rightarrow> main_state" where
  "process_one Document output_base discarded_base folder_name doc_name doc_paths st =
     (let st1 = st\<lparr> doc_counter := doc_counter st + 1,
                       printed := printed st @ [Processing (doc_counter st + 1) folder_name doc_name] \<rparr>
      in case process_document_set Document doc_paths output_base discarded_base
                folder_name doc_name (disk st1) of
           Inr fs' \<Rightarrow> st1\<lparr> disk := fs', successful := successful st1 + 1 \<rparr>
         | Inl e \<Rightarrow> st1\<lparr> failed := failed st1 + 1,
                           printed := printed st1 @ [ErrorProcessing doc_name e] \<rparr>)"

text \<open>
  Lines 255 to 275: the two loops, over the sorted folder names and the sorted document
  names. The dictionaries are association lists with distinct keys, so a loop over the
  sorted keys with a lookup is a loop over the entries sorted by key.
\<close>

definition process_folder ::
  "(path \<Rightarrow> error + docx) \<Rightarrow> path \<Rightarrow> path \<Rightarrow> string
     \<Rightarrow> (string \<times> (string \<times> path) list) list \<Rightarrow> main_state \<Rightarrow> main_state" where
  "process_folder Document output_base discarded_base folder_name doc_sets st =
     fold (\<lambda>(doc_name, doc_paths) st.
             process_one Document output_base discarded_base folder_name doc_name doc_paths st)
       (sort_key fst doc_sets) st"

definition process_all ::
  "(path \<Rightarrow> error + docx) \<Rightarrow> path \<Rightarrow> path
     \<Rightarrow> (string \<times> (string \<times> (string \<times> path) list) list) list \<Rightarrow> main_state \<Rightarrow> main_state" where
  "process_all Document output_base discarded_base all_sets st =
     fold (\<lambda>(folder_name, doc_sets) st.
             process_folder Document output_base discarded_base folder_name doc_sets st)
       (sort_key fst all_sets) st"

text \<open>
  \<open>main\<close>, with the directory of the script, the listing of the input folders and
  the files present before the run.
\<close>

definition main ::
  "(path \<Rightarrow> error + docx) \<Rightarrow> path \<Rightarrow> (string \<Rightarrow> string list option) \<Rightarrow> filesystem
     \<Rightarrow> main_state" where
  "main Document script_dir listing fs =
     (let base_path = script_dir @ [''original_texts''];
          output_base = script_dir @ [''extracted_paragraphs''];
          discarded_base = script_dir @ [''extracted_paragraphs'', ''discarded_texts''];
          all_sets = discover_document_sets base_path listing
      in process_all Document output_base discarded_base all_sets
           \<lparr> disk = fs, doc_counter = 0, successful = 0, failed = 0, printed = [] \<rparr>)"

section \<open>The aligned-output tree read by stages 2 and 3\<close>

text \<open>
  A directory entry is a regular file with its content or a directory with its entries,
  listed in the order the operating system yields them. Entry names of one directory are
  distinct in a real tree.
\<close>

datatype node = File string | Dir "(string \<times> node) list"

text \<open>\<open>path.read_text()\<close> and \<open>open(path)\<close> raise on a directory.\<close>

definition read_text :: "string \<Rightarrow> node \<Rightarrow> error + string" where
  "read_text name nd =
     (case nd of
        File content \<Rightarrow> Inr (universal_newlines content)
      | Dir _ \<Rightarrow> Inl (IsADirectoryError name))"

text \<open>\<open>[d for d in path.iterdir() if d.is_dir()]\<close>, each with its entries.\<close>

definition subdirs :: "(string \<times> node) list \<Rightarrow> (string \<times> (string \<times> node) list) list" where
  "subdirs entries =
     List.map_filter (\<lambda>(name, nd). case nd of Dir es \<Rightarrow> Some (name, es) | File _ \<Rightarrow> None)
       entries"

section \<open>Stage 3: the Verifier (\<open>verify_all_documents\<close>)\<close>

definition count_paragraphs :: "string \<Rightarrow> node \<Rightarrow> error + nat" where
  "count_paragraphs name nd =
     (case read_text name nd of
        Inl e \<Rightarrow> Inl e
      | Inr content \<Rightarrow>
          Inr (length (map strip (filter (\<lambda>line. strip line \<noteq> []) (split_newline content)))))"

definition languages :: "string list" where
  "languages = [''castellano'', ''ca_ES'', ''vl_ES'', ''gl_ES'', ''eu_ES'']"

text \<open>
  Lines 49 to 54: the counts of the language files that exist in the document directory,
  in the order of \<open>languages\<close>.
\<close>

fun count_languages ::
  "(string \<times> node) list \<Rightarrow> string list \<Rightarrow> error + (string \<times> nat) list" where
  "count_languages entries [] = Inr []"
| "count_languages entries (lang # rest) =
     (case map_of entries (lang @ ''.txt'') of
        None \<Rightarrow> count_languages entries rest
      | Some lang_file \<Rightarrow>
          (case count_paragraphs (lang @ ''.txt'') lang_file of
             Inl e \<Rightarrow> Inl e
           | Inr n \<Rightarrow>
               (case count_languages entries rest of
                  Inl e \<Rightarrow> Inl e
                | Inr counts \<Rightarrow> Inr ((lang, n) # counts))))"

text \<open>
  Lines 56 to 62 for one document directory: \<open>True\<close> stands for the line that reports
  equal counts, \<open>False\<close> for the mismatch line.
\<close>

definition verify_document :: "(string \<times> node) list \<Rightarrow> error + bool" where
  "verify_document entries =
     (case count_languages entries languages of
        Inl e \<Rightarrow> Inl e
      | Inr counts \<Rightarrow> Inr (length (remdups (map snd counts)) = 1))"

record verify_state =
  all_ok :: bool
  total_docs :: nat
  reports :: "(string \<times> bool) list"

text \<open>Lines 44 to 62: the loop over the sorted document directories of one folder.\<close>

fun verify_doc_dirs ::
  "(string \<times> (string \<times> node) list) list \<Rightarrow> verify_state \<Rightarrow> error + verify_state" where
  "verify_doc_dirs [] st = Inr st"
| "verify_doc_dirs ((doc_name, entries) # rest) st =
     (case verify_document entries of
        Inl e \<Rightarrow> Inl e
      | Inr ok \<Rightarrow>
          verify_doc_dirs rest
            (st\<lparr> total_docs := total_docs st + 1,
                 reports := reports st @ [(doc_name, ok)],
                 all_ok := (if ok then all_ok st else False) \<rparr>))"

text \<open>
  Lines 32 to 62: the loop over the folders. A folder that does not exist is skipped;
  \<open>iterdir\<close> on a folder path that is a regular file raises.
\<close>

fun verify_folders ::
  "(string \<times> node) list \<Rightarrow> string list \<Rightarrow> verify_state \<Rightarrow> error + verify_state" where
  "verify_folders base [] st = Inr st"
| "verify_folders base (folder_name # rest) st =
     (case map_of base folder_name of
        None \<Rightarrow> verify_folders base rest st
      | Some (File _) \<Rightarrow> Inl (NotADirectoryError folder_name)
      | Some (Dir entries) \<Rightarrow>
          (case verify_doc_dirs (sort_key fst (subdirs entries)) st of
             Inl e \<Rightarrow> Inl e
           | Inr st' \<Rightarrow> verify_folders base rest st'))"

definition verified_folders :: "string list" where
  "verified_folders = [''Actualidad'', ''Consejo de Ministros'', ''Gobierno XV'', ''Presidente'']"

text \<open>
  \<open>base\<close> is the list of entries of \<open>extracted_paragraphs\<close>, empty when that
  directory does not exist. The function returns \<open>all_ok\<close>; the state also keeps the
  lines reported per document.
\<close>

definition verify_all_documents :: "(string \<times> node) list \<Rightarrow> error + verify_state" where
  "verify_all_documents base =
     verify_folders base verified_folders \<lparr> all_ok = True, total_docs = 0, reports = [] \<rparr>"

section \<open>Stage 2: the Consolidator (\<open>consolidate_parallel_texts\<close>)\<close>

definition LANG_MAPPING :: "(string \<times> string) list" where
  "LANG_MAPPING =
     [(''castellano'', ''es''), (''ca_ES'', ''ca''), (''va_ES'', ''va''), (''ga_ES'', ''ga''),
      (''eu_ES'', ''eu'')]"

text \<open>\<open>Path.stem\<close> of a name that \<open>glob("*.txt")\<close> yields.\<close>

definition stem :: "string \<Rightarrow> string" where
  "stem name = (if name = ''.txt'' then name else take (length name - 4) name)"

definition glob_txt :: "(string \<times> node) list \<Rightarrow> (string \<times> node) list" where
  "glob_txt entries = filter (\<lambda>(name, nd). endswith name ''.txt'') entries"

text \<open>Line 65: the lines of the file that are not blank, without their newline.\<close>

definition read_paragraphs :: "string \<Rightarrow> string list" where
  "read_paragraphs content =
     map rstrip_newline
       (filter (\<lambda>line. strip line \<noteq> []) (file_lines (universal_newlines content)))"

text \<open>
  Lines 59 to 68: the loop over the text files of a document directory, with the
  dictionary \<open>doc_paragraphs\<close> and \<open>paragraph_count\<close> as its state.
\<close>

fun read_languages ::
  "(string \<times> node) list \<Rightarrow> (string \<times> string list) list \<times> nat
     \<Rightarrow> error + ((string \<times> string list) list \<times> nat)" where
  "read_languages [] acc = Inr acc"
| "read_languages ((name, lang_file) # rest) (doc_paragraphs, paragraph_count) =
     (case map_of LANG_MAPPING (stem name) of
        None \<Rightarrow> read_languages rest (doc_paragraphs, paragraph_count)
      | Some lang_code \<Rightarrow>
          if lang_code \<noteq> []
          then
            (case lang_file of
               Dir _ \<Rightarrow> Inl (IsADirectoryError name)
             | File content \<Rightarrow>
                 let paragraphs = read_paragraphs content
                 in read_languages rest
                      (AList.update lang_code paragraphs doc_paragraphs,
                       if paragraph_count = 0 then length paragraphs else paragraph_count))
          else read_languages rest (doc_paragraphs, paragraph_count))"

text \<open>
  Lines 71 to 79: when the read counts differ, every list is cut to the minimum and a
  warning with the document name and the counts is printed (the third component).
\<close>

definition check_counts ::
  "string \<Rightarrow> (string \<times> string list) list \<times> nat
     \<Rightarrow> (string \<times> string list) list \<times> nat \<times> (string \<times> (string \<times> nat) list) list" where
  "check_counts doc_name read =
     (let (doc_paragraphs, paragraph_count) = read;
          counts = map (\<lambda>(lang, paras). (lang, length paras)) doc_paragraphs
      in if length (remdups (map snd counts)) > 1
         then
           let min_count = min_list (map snd counts)
           in (map (\<lambda>(lang, paras). (lang, take min_count paras)) doc_paragraphs,
               min_count, [(doc_name, counts)])
         else (doc_paragraphs, paragraph_count, []))"

text \<open>
  The five master files are opened at line 31; \<open>output_files\<close> gives the text written
  so far to the file of each language code.
\<close>

record consolidate_state =
  output_files :: "string \<Rightarrow> string"
  total_paragraphs :: nat
  document_count :: nat
  warnings :: "(string \<times> (string \<times> nat) list) list"

text \<open>Lines 83 to 86.\<close>

definition write_paragraphs ::
  "(string \<times> string list) list \<Rightarrow> (string \<Rightarrow> string) \<Rightarrow> (string \<Rightarrow> string)" where
  "write_paragraphs doc_paragraphs files =
     fold (\<lambda>lang_code files.
             (case map_of doc_paragraphs lang_code of
                None \<Rightarrow> files
              | Some paragraphs \<Rightarrow>
                  fold (\<lambda>paragraph files.
                          files(lang_code := files lang_code @ paragraph @ [newline]))
                    paragraphs files))
       (map snd LANG_MAPPING) files"

text \<open>Lines 52 to 89 for one document directory.\<close>

definition consolidate_document ::
  "string \<Rightarrow> (string \<times> node) list \<Rightarrow> consolidate_state \<Rightarrow> error + consolidate_state" where
  "consolidate_document doc_name entries st =
     (case read_languages (glob_txt entries) ([], 0) of
        Inl e \<Rightarrow> Inl e
      | Inr read \<Rightarrow>
          let (doc_paragraphs, paragraph_count, warning) = check_counts doc_name read;
              st1 = st\<lparr> document_count := document_count st + 1,
                        warnings := warnings st @ warning \<rparr>
          in if doc_paragraphs \<noteq> [] \<and> paragraph_count > 0
             then Inr (st1\<lparr> output_files := write_paragraphs doc_paragraphs (output_files st1),
                            total_paragraphs := total_paragraphs st1 + paragraph_count \<rparr>)
             else Inr st1)"

text \<open>Lines 48 to 89: the loop over the sorted entries of one folder.\<close>

fun consolidate_docs ::
  "(string \<times> node) list \<Rightarrow> consolidate_state \<Rightarrow> error + consolidate_state" where
  "consolidate_docs [] st = Inr st"
| "consolidate_docs ((doc_name, doc_dir) # rest) st =
     (case doc_dir of
        File _ \<Rightarrow> consolidate_docs rest st
      | Dir entries \<Rightarrow>
          (case consolidate_document doc_name entries st of
             Inl e \<Rightarrow> Inl e
           | Inr st' \<Rightarrow> consolidate_docs rest st'))"

text \<open>Lines 41 to 89: the loop over the sorted entries of \<open>extracted_paragraphs\<close>.\<close>

fun consolidate_folders ::
  "(string \<times> node) list \<Rightarrow> consolidate_state \<Rightarrow> error + consolidate_state" where
  "consolidate_folders [] st = Inr st"
| "consolidate_folders ((folder_name, folder) # rest) st =
     (case folder of
        File _ \<Rightarrow> consolidate_folders rest st
      | Dir entries \<Rightarrow>
          if startswith folder_name ''.'' \<or> folder_name = ''discarded_texts''
          then consolidate_folders rest st
          else
            (case consolidate_docs (sort_key fst entries) st of
               Inl e \<Rightarrow> Inl e
             | Inr st' \<Rightarrow> consolidate_folders rest st'))"

text \<open>
  Lines 29 to 38 give the state before the loops. \<open>extracted_dir\<close> is the list of
  entries of the directory \<open>extracted_paragraphs\<close>. The result is the state when the
  loops end: the text of the master files, the totals and the warnings printed.
\<close>

definition initial_state :: consolidate_state where
  "initial_state =
     \<lparr> output_files = (\<lambda>lang_code. []), total_paragraphs = 0, document_count = 0,
       warnings = [] \<rparr>"

definition consolidate_parallel_texts ::
  "(string \<times> node) list \<Rightarrow> error + consolidate_state" where
  "consolidate_parallel_texts extracted_dir =
     consolidate_folders (sort_key fst extracted_dir) initial_state"

text \<open>Lines 107 and 116: the number of non-blank lines of a master file.\<close>

definition count_lines :: "string \<Rightarrow> nat" where
  "count_lines content =
     length (filter (\<lambda>line. strip line \<noteq> []) (file_lines (universal_newlines content)))"



text \<open>A document used to exercise the Extractor.\<close>

definition example_docx :: docx where
  "example_docx =
     \<lparr> part_rels = [''media/Image1.png'', ''styles.xml''],
       doc_tables = [[[''cell'']]],
       doc_sections = [\<lparr> header_paragraphs = [''H''], footer_paragraphs = [''F'', ''G''] \<rparr>],
       body_paragraphs = ['' a '', ''  '', ''b c''] \<rparr>"


text \<open>
  The writes of \<open>save_discarded\<close> and \<open>save_parallel\<close> as lists of path and content,
  in the order the loops perform them.
\<close>

definition discard_writes :: "(string \<times> string list) list \<Rightarrow> nat \<Rightarrow> path \<Rightarrow> (path \<times> string) list" where
  "discard_writes all_paragraphs min_count discarded_folder =
     map (\<lambda>(lang_code, paragraphs).
            (discarded_folder @ [lang_code @ ''.txt''], join paragraph_sep (drop min_count paragraphs)))
       (filter (\<lambda>(lang_code, paragraphs). length paragraphs > min_count) all_paragraphs)"

definition parallel_writes :: "(string \<times> string list) list \<Rightarrow> path \<Rightarrow> (path \<times> string) list" where
  "parallel_writes all_paragraphs output_folder =
     map (\<lambda>(lang_code, paragraphs).
            (output_folder @ [lang_code @ ''.txt''], join paragraph_sep paragraphs))
       (sort_key fst all_paragraphs)"


text \<open>The minimum of the paragraph counts of a document set.\<close>

definition min_len :: "(string \<times> string list) list \<Rightarrow> nat" where
  "min_len all_paragraphs = Min (length ` snd ` set all_paragraphs)"


text \<open>The files one run of the Aligner/Writer writes, as a finite map.\<close>

definition written_files ::
  "(string \<times> string list) list \<Rightarrow> path \<Rightarrow> path \<Rightarrow> string \<Rightarrow> string \<Rightarrow> filesystem" where
  "written_files all_paragraphs output_base discarded_base folder_name doc_name =
     (if (\<forall>x\<in>set all_paragraphs. \<forall>y\<in>set all_paragraphs. length (snd x) = length (snd y))
      then Map.empty
      else map_of (rev (discard_writes all_paragraphs (min_len all_paragraphs)
                          (discarded_base @ [doc_name]))))
     ++ map_of (rev (parallel_writes
          (map (\<lambda>(lang_code, paragraphs).
             (lang_code, take (min_len all_paragraphs) paragraphs)) all_paragraphs)
          (output_base @ [folder_name, doc_name])))"

text \<open>A document set of five languages with unequal counts, and one with equal counts.\<close>

definition unequal_set :: "(string \<times> string list) list" where
  "unequal_set =
     [(''ca_ES'', [''a1'', ''a2'']), (''castellano'', [''b1'', ''b2'', ''b3'']),
      (''eu_ES'', [''c1'', ''c2'']), (''gl_ES'', [''d1'', ''d2'', ''d3'', ''d4'']),
      (''vl_ES'', [''e1'', ''e2''])]"


text \<open>
  The names of a folder that count towards a base name: matched by \<open>glob\<close>, not
  temporary, and classified with that base name.
\<close>

definition matched_files :: "string \<Rightarrow> string list \<Rightarrow> string list" where
  "matched_files base_name names =
     filter (\<lambda>name. \<not> startswith name ''~'' \<and>
                     (case classify name of
                        None \<Rightarrow> False
                      | Some (lang_code, b) \<Rightarrow> b = base_name))
       (glob_docx names)"

text \<open>
  The invariant of the grouping loop: the keys are distinct, and every language entry of
  a base name comes from a file seen so far that is classified with that language and
  base name.
\<close>

definition groups_ok ::
  "path \<Rightarrow> string set \<Rightarrow> (string \<times> (string \<times> path) list) list \<Rightarrow> bool" where
  "groups_ok folder_path S file_groups =
     (distinct (map fst file_groups) \<and>
      (\<forall>base_name m. map_of file_groups base_name = Some m \<longrightarrow>
         distinct (map fst m) \<and>
         (\<forall>lang_code p. map_of m lang_code = Some p \<longrightarrow>
            (\<exists>name\<in>S. \<not> startswith name ''~'' \<and> p = folder_path @ [name] \<and>
                classify name = Some (lang_code, base_name)))))"

text \<open>Two folder listings: a partial document set, and a complete one with extra files.\<close>

definition partial_listing :: "string \<Rightarrow> string list option" where
  "partial_listing folder_name =
     (if folder_name = ''Presidente''
      then Some [''doc_castellano.docx'', ''doc_ca-ES.docx'']
      else None)"

definition complete_listing :: "string \<Rightarrow> string list option" where
  "complete_listing folder_name =
     (if folder_name = ''Presidente''
      then Some [''doc_castellano.docx'', ''doc_ca-ES.docx'', ''doc_va_ES.docx'',
                 ''~doc_gl_ES.docx'', ''doc-gl-ES.docx'', ''doc_eu_ES.docx'', ''notes.docx'']
      else None)"


text \<open>The number of lines of a file that are not all whitespace.\<close>

definition nonblank_line_count :: "string \<Rightarrow> nat" where
  "nonblank_line_count content =
     length (filter (\<lambda>line. \<not> list_all isspace line) (split_newline (universal_newlines content)))"

text \<open>
  The counts of the language files present as regular files in a document directory, in
  the order of \<open>languages\<close>.
\<close>

definition present_counts :: "(string \<times> node) list \<Rightarrow> nat list" where
  "present_counts entries =
     List.map_filter
       (\<lambda>lang. case map_of entries (lang @ ''.txt'') of
                  Some (File content) \<Rightarrow> Some (nonblank_line_count content)
                | _ \<Rightarrow> None)
       languages"

text \<open>All five language files exist and have the same count of non-blank lines.\<close>

definition all_five_equal :: "(string \<times> node) list \<Rightarrow> bool" where
  "all_five_equal entries =
     (\<exists>n. \<forall>lang\<in>set languages. \<exists>content.
        map_of entries (lang @ ''.txt'') = Some (File content) \<and> nonblank_line_count content = n)"

text \<open>
  The verdicts expected for the document directories of one folder, in sorted order;
  nothing for a folder that is absent.
\<close>

definition folder_reports :: "(string \<times> node) list \<Rightarrow> string \<Rightarrow> (string \<times> bool) list" where
  "folder_reports base folder_name =
     (case map_of base folder_name of
        Some (Dir entries) \<Rightarrow>
          map (\<lambda>(doc_name, es). (doc_name, verify_document es = Inr True))
            (sort_key fst (subdirs entries))
      | _ \<Rightarrow> [])"

text \<open>
  A tree the Verifier can read: none of the four folders is a regular file, and no
  language file of a document directory is a directory.
\<close>

definition readable_tree :: "(string \<times> node) list \<Rightarrow> bool" where
  "readable_tree base =
     (\<forall>folder_name\<in>set verified_folders.
        case map_of base folder_name of
          None \<Rightarrow> True
        | Some (File _) \<Rightarrow> False
        | Some (Dir entries) \<Rightarrow>
            (\<forall>(doc_name, es)\<in>set (subdirs entries).
               \<forall>lang\<in>set languages. \<forall>x. map_of es (lang @ ''.txt'') \<noteq> Some (Dir x)))"

text \<open>Trees used to exercise the Verifier.\<close>

definition two_equal_files :: "(string \<times> node) list" where
  "two_equal_files = [(''castellano.txt'', File ''uno''), (''ca_ES.txt'', File ''u'')]"

definition five_files :: "(string \<times> node) list" where
  "five_files =
     [(''castellano.txt'', File ''a''), (''ca_ES.txt'', File ''b''), (''vl_ES.txt'', File ''c''),
      (''gl_ES.txt'', File ''d''), (''eu_ES.txt'', File ''e'')]"

definition tree_with_empty_document :: "(string \<times> node) list" where
  "tree_with_empty_document =
     [(''Actualidad'', Dir [(''doc1'', Dir five_files), (''doc2'', Dir [])])]"

text \<open>
  A tree as stage 1 writes it: one document with two aligned paragraphs per language,
  in files named by the language codes of stage 1.
\<close>

definition stage1_tree :: "(string \<times> node) list" where
  "stage1_tree =
     [(''Actualidad'',
       Dir [(''doc'',
             Dir [(''castellano.txt'', File (join paragraph_sep [''uno'', ''dos''])),
                  (''ca_ES.txt'', File (join paragraph_sep [''u'', ''dos''])),
                  (''vl_ES.txt'', File (join paragraph_sep [''u'', ''dos''])),
                  (''gl_ES.txt'', File (join paragraph_sep [''un'', ''dous''])),
                  (''eu_ES.txt'', File (join paragraph_sep [''bat'', ''bi'']))])])]"

text \<open>A tree in which a language entry of the first document is a directory.\<close>

definition unreadable_tree :: "(string \<times> node) list" where
  "unreadable_tree =
     [(''Actualidad'',
       Dir [(''doc1'', Dir [(''castellano.txt'', Dir [])]),
            (''doc2'', Dir [(''castellano.txt'', File ''uno''), (''ca_ES.txt'', File ''u'')])])]"



text \<open>Lines 112 to 116: the line count of each master file, in the order of the mapping.\<close>

definition master_line_counts :: "consolidate_state \<Rightarrow> (string \<times> nat) list" where
  "master_line_counts st =
     map (\<lambda>lang_code. (lang_code, count_lines (output_files st lang_code)))
       (map snd LANG_MAPPING)"



text \<open>
  The document sets of a discovery result in the order the batch loop takes them, the
  exception that processing a document set raises, if any, and what the printed lines
  say: which document sets were started and which errors were reported.
\<close>

definition document_sets ::
  "(string \<times> (string \<times> (string \<times> path) list) list) list
     \<Rightarrow> (string \<times> string \<times> (string \<times> path) list) list" where
  "document_sets all_sets =
     concat (map (\<lambda>(folder_name, doc_sets).
                    map (\<lambda>(doc_name, doc_paths). (folder_name, doc_name, doc_paths))
                      (sort_key fst doc_sets))
               (sort_key fst all_sets))"

definition doc_error :: "(path \<Rightarrow> error + docx) \<Rightarrow> (string \<times> path) list \<Rightarrow> error option" where
  "doc_error Document doc_paths =
     (case extract_all Document (sort_key fst doc_paths) of
        Inl e \<Rightarrow> Some e
      | Inr all_paragraphs \<Rightarrow> if all_paragraphs = [] then Some ValueError else None)"

definition errors_of ::
  "(path \<Rightarrow> error + docx) \<Rightarrow> (string \<times> string \<times> (string \<times> path) list) list
     \<Rightarrow> (string \<times> error) list" where
  "errors_of Document docs =
     List.map_filter
       (\<lambda>(folder_name, doc_name, doc_paths).
          map_option (\<lambda>e. (doc_name, e)) (doc_error Document doc_paths))
       docs"

fun attempted :: "event list \<Rightarrow> (string \<times> string) list" where
  "attempted [] = []"
| "attempted (Processing i folder_name doc_name # evs) = (folder_name, doc_name) # attempted evs"
| "attempted (ErrorProcessing doc_name e # evs) = attempted evs"

fun reported_errors :: "event list \<Rightarrow> (string \<times> error) list" where
  "reported_errors [] = []"
| "reported_errors (Processing i folder_name doc_name # evs) = reported_errors evs"
| "reported_errors (ErrorProcessing doc_name e # evs) = (doc_name, e) # reported_errors evs"

text \<open>The batch loop has taken the document sets \<open>docs\<close> from state \<open>st\<close> to \<open>st'\<close>.\<close>

definition advanced ::
  "(path \<Rightarrow> error + docx) \<Rightarrow> (string \<times> string \<times> (string \<times> path) list) list
     \<Rightarrow> main_state \<Rightarrow> main_state \<Rightarrow> bool" where
  "advanced Document docs st st' =
     (doc_counter st' = doc_counter st + length docs
      \<and> attempted (printed st')
          = attempted (printed st) @ map (\<lambda>(folder_name, doc_name, doc_paths). (folder_name, doc_name)) docs
      \<and> reported_errors (printed st') = reported_errors (printed st) @ errors_of Document docs
      \<and> failed st' = failed st + length (errors_of Document docs)
      \<and> successful st' + failed st' = successful st + failed st + length docs)"

text \<open>
  An input folder with two complete document sets; opening the Castilian file of the
  first one fails.
\<close>

definition two_sets_listing :: "string \<Rightarrow> string list option" where
  "two_sets_listing folder_name =
     (if folder_name = ''Actualidad''
      then Some [''a_castellano.docx'', ''a_ca-ES.docx'', ''a_va_ES.docx'', ''a_gl_ES.docx'',
                 ''a_eu_ES.docx'', ''b_castellano.docx'', ''b_ca-ES.docx'', ''b_va_ES.docx'',
                 ''b_gl_ES.docx'', ''b_eu_ES.docx'']
      else None)"

definition flaky_Document :: "path \<Rightarrow> error + docx" where
  "flaky_Document p =
     (if p = [''original_texts'', ''Actualidad'', ''a_castellano.docx'']
      then Inl (PackageError ''Package not found'')
      else Inr example_docx)"

section \<open>Properties of the Extractor\<close>







lemma strip_empty_iff: "strip s = [] \<longleftrightarrow> list_all isspace s"
proof
  assume e: "strip s = []"
  show "list_all isspace s"
  proof (rule ccontr)
    assume n: "\<not> list_all isspace s"
    then have ne: "lstrip s \<noteq> []" by (simp add: lstrip_def list_all_iff)
    then have h: "\<not> isspace (hd (lstrip s))" unfolding lstrip_def by (rule hd_dropWhile)
    from e have "\<forall>x\<in>set (lstrip s). isspace x"
      by (simp add: strip_def rstrip_def dropWhile_eq_Nil_conv)
    with ne h show False by (metis hd_in_set)
  qed
next
  assume "list_all isspace s"
  then have "lstrip s = []" by (simp add: lstrip_def list_all_iff)
  then show "strip s = []" by (simp add: strip_def rstrip_def)
qed





section \<open>Properties of the Aligner/Writer\<close>

lemma fold_write_text:
  "fold (\<lambda>(p, c) fs. write_text p c fs) ws fs = fs ++ map_of (rev ws)"
proof (induction ws arbitrary: fs)
  case Nil
  show ?case by simp
next
  case (Cons w ws)
  obtain p c where w: "w = (p, c)" by (cases w)
  have "fold (\<lambda>(p, c) fs. write_text p c fs) (w # ws) fs
        = fold (\<lambda>(p, c) fs. write_text p c fs) ws (fs(p \<mapsto> c))"
    by (simp add: w write_text_def)
  also have "\<dots> = fs(p \<mapsto> c) ++ map_of (rev ws)" by (rule Cons.IH)
  also have "\<dots> = fs ++ ([p \<mapsto> c] ++ map_of (rev ws))"
    by (rule ext) (simp add: map_add_def split: option.splits)
  also have "\<dots> = fs ++ map_of (rev (w # ws))" by (simp add: w)
  finally show ?case .
qed


lemma save_discarded_writes:
  "save_discarded all_paragraphs m df fs = fs ++ map_of (rev (discard_writes all_paragraphs m df))"
proof -
  have "save_discarded all_paragraphs m df fs
        = fold (\<lambda>(p, c) fs. write_text p c fs) (discard_writes all_paragraphs m df) fs"
    unfolding save_discarded_def discard_writes_def
    by (induction all_paragraphs arbitrary: fs) (auto simp: split_def)
  then show ?thesis by (simp add: fold_write_text)
qed

lemma save_parallel_writes:
  "save_parallel all_paragraphs ofo fs = fs ++ map_of (rev (parallel_writes all_paragraphs ofo))"
proof -
  have "fold (\<lambda>(lang_code, paragraphs) fs.
             write_text (ofo @ [lang_code @ ''.txt''])
               (join paragraph_sep paragraphs) fs) xs fs
        = fold (\<lambda>(p, c) fs. write_text p c fs) (map (\<lambda>(lang_code, paragraphs).
            (ofo @ [lang_code @ ''.txt''], join paragraph_sep paragraphs)) xs) fs" for xs
    by (induction xs arbitrary: fs) (auto simp: split_def)
  then show ?thesis unfolding save_parallel_def parallel_writes_def by (simp add: fold_write_text)
qed

lemma file_name_inj: "inj (\<lambda>lang_code. folder @ [lang_code @ ''.txt''])"
  by (rule injI) simp




lemma discard_writes_other:
  assumes "\<forall>lang_code \<in> fst ` set all_paragraphs. p \<noteq> df @ [lang_code @ ''.txt'']"
  shows "map_of (rev (discard_writes all_paragraphs m df)) p = None"
proof -
  have "p \<notin> fst ` set (rev (discard_writes all_paragraphs m df))"
    using assms by (auto simp: discard_writes_def)
  then show ?thesis by (simp add: map_of_eq_None_iff)
qed

lemma max_list_Max: "xs \<noteq> [] \<Longrightarrow> max_list xs = Max (set xs)"
  by (induction xs rule: max_list.induct) (auto simp: max_def split: list.splits)

lemma min_eq_max_iff:
  assumes "xs \<noteq> []"
  shows "min_list xs = max_list xs \<longleftrightarrow> (\<forall>x\<in>set xs. \<forall>y\<in>set xs. x = (y::nat))"
proof -
  have fin: "finite (set xs)" and ne: "set xs \<noteq> {}" using assms by simp_all
  have "Min (set xs) = Max (set xs) \<longleftrightarrow> (\<forall>x\<in>set xs. \<forall>y\<in>set xs. x = y)"
  proof
    assume e: "Min (set xs) = Max (set xs)"
    show "\<forall>x\<in>set xs. \<forall>y\<in>set xs. x = y"
    proof (intro ballI)
      fix x y assume "x \<in> set xs" "y \<in> set xs"
      then have "Min (set xs) \<le> x" "x \<le> Max (set xs)" "Min (set xs) \<le> y" "y \<le> Max (set xs)"
        using fin by simp_all
      with e show "x = y" by simp
    qed
  next
    assume a: "\<forall>x\<in>set xs. \<forall>y\<in>set xs. x = y"
    have "Min (set xs) \<in> set xs" "Max (set xs) \<in> set xs" using fin ne by simp_all
    with a show "Min (set xs) = Max (set xs)" by blast
  qed
  then show ?thesis using assms by (simp add: min_list_Min max_list_Max)
qed


lemma counts_min:
  assumes "all_paragraphs \<noteq> []"
  shows "min_list (map snd (map (\<lambda>(lang, paras). (lang, length paras)) all_paragraphs))
         = Min (length ` snd ` set all_paragraphs)"
proof -
  have "map snd (map (\<lambda>(lang, paras). (lang, length paras)) all_paragraphs)
        = map (length \<circ> snd) all_paragraphs"
    by (simp add: split_def comp_def)
  moreover have "map (length \<circ> snd) all_paragraphs \<noteq> []" using assms by simp
  ultimately show ?thesis by (simp add: min_list_Min image_comp)
qed

lemma counts_equal_iff:
  assumes "all_paragraphs \<noteq> []"
  shows "min_list (map snd (map (\<lambda>(lang, paras). (lang, length paras)) all_paragraphs))
         = max_list (map snd (map (\<lambda>(lang, paras). (lang, length paras)) all_paragraphs))
         \<longleftrightarrow> (\<forall>x\<in>set all_paragraphs. \<forall>y\<in>set all_paragraphs. length (snd x) = length (snd y))"
proof -
  have e: "map snd (map (\<lambda>(lang, paras). (lang, length paras)) all_paragraphs)
        = map (length \<circ> snd) all_paragraphs"
    by (simp add: split_def comp_def)
  have "map (length \<circ> snd) all_paragraphs \<noteq> []" using assms by simp
  from min_eq_max_iff [OF this] show ?thesis unfolding e by auto
qed


lemma if_neg_swap: "(if \<not> P then a else b) = (if P then b else a)"
  by simp

lemma align_write_unfold:
  assumes ne: "all_paragraphs \<noteq> []"
  shows "align_write all_paragraphs output_base discarded_base folder_name doc_name fs
   = Inr ((if (\<forall>x\<in>set all_paragraphs. \<forall>y\<in>set all_paragraphs. length (snd x) = length (snd y))
           then fs
           else fs ++ map_of (rev (discard_writes all_paragraphs
                   (min_len all_paragraphs) (discarded_base @ [doc_name]))))
          ++ map_of (rev (parallel_writes
               (map (\<lambda>(lang_code, paragraphs).
                  (lang_code, take (min_len all_paragraphs) paragraphs)) all_paragraphs)
               (output_base @ [folder_name, doc_name]))))"
proof -
  let ?counts = "map (\<lambda>(lang, paras). (lang, length paras)) all_paragraphs"
  let ?eq = "\<forall>x\<in>set all_paragraphs. \<forall>y\<in>set all_paragraphs. length (snd x) = length (snd y)"
  have m: "min_list (map snd ?counts) = min_len all_paragraphs"
    unfolding min_len_def by (rule counts_min [OF ne])
  have c: "(min_list (map snd ?counts) \<noteq> max_list (map snd ?counts)) = (\<not> ?eq)"
    using counts_equal_iff [OF ne] by (simp only:)
  have "align_write all_paragraphs output_base discarded_base folder_name doc_name fs
        = Inr (save_parallel
                 (map (\<lambda>(lang_code, paragraphs).
                    (lang_code, take (min_list (map snd ?counts)) paragraphs)) all_paragraphs)
                 (output_base @ [folder_name, doc_name])
                 (if min_list (map snd ?counts) \<noteq> max_list (map snd ?counts)
                  then save_discarded all_paragraphs (min_list (map snd ?counts))
                         (discarded_base @ [doc_name]) fs
                  else fs))"
    unfolding align_write_def Let_def using ne by (simp only: if_False)
  also have "\<dots> = Inr ((if ?eq then fs
           else fs ++ map_of (rev (discard_writes all_paragraphs
                   (min_len all_paragraphs) (discarded_base @ [doc_name]))))
          ++ map_of (rev (parallel_writes
               (map (\<lambda>(lang_code, paragraphs).
                  (lang_code, take (min_len all_paragraphs) paragraphs)) all_paragraphs)
               (output_base @ [folder_name, doc_name]))))"
    unfolding m c [unfolded m] save_parallel_writes save_discarded_writes
    by (simp only: if_neg_swap)
  finally show ?thesis .
qed


lemma align_write_overlay:
  assumes "all_paragraphs \<noteq> []"
  shows "align_write all_paragraphs output_base discarded_base folder_name doc_name fs
         = Inr (fs ++ written_files all_paragraphs output_base discarded_base folder_name doc_name)"
proof (cases "\<forall>x\<in>set all_paragraphs. \<forall>y\<in>set all_paragraphs. length (snd x) = length (snd y)")
  case True
  show ?thesis
    unfolding align_write_unfold [OF assms] written_files_def if_P [OF True] by simp
next
  case False
  show ?thesis
    unfolding align_write_unfold [OF assms] written_files_def if_not_P [OF False] by simp
qed












lemma map_add_twice: "(m ++ w) ++ w = m ++ w"
  by (rule ext) (simp add: map_add_def split: option.splits)

text \<open>
  Claim C9. When a run of the Aligner/Writer on given paragraph sequences has produced
  the filesystem \<open>fs1\<close>, running it again on the same sequences returns \<open>fs1\<close>
  unchanged; and a run on the same sequences from any other starting filesystem leaves
  every path either with the same content as in \<open>fs1\<close> or untouched in both runs. So
  the output and discard files written are a function of the paragraph sequences alone,
  and prior files of the same name are overwritten.
\<close>

theorem align_write_idempotent:
  assumes "align_write all_paragraphs output_base discarded_base folder_name doc_name fs = Inr fs1"
  shows "align_write all_paragraphs output_base discarded_base folder_name doc_name fs1 = Inr fs1
     \<and> (\<forall>fs' fs2. align_write all_paragraphs output_base discarded_base folder_name doc_name fs'
                      = Inr fs2
           \<longrightarrow> (\<forall>p. fs2 p = fs1 p \<or> (fs1 p = fs p \<and> fs2 p = fs' p)))"
proof -
  let ?W = "written_files all_paragraphs output_base discarded_base folder_name doc_name"
  have ne: "all_paragraphs \<noteq> []" using assms by (auto simp: align_write_def)
  have run: "align_write all_paragraphs output_base discarded_base folder_name doc_name f
             = Inr (f ++ ?W)" for f
    by (rule align_write_overlay [OF ne])
  from assms have fs1: "fs1 = fs ++ ?W" by (simp add: run)
  have again: "align_write all_paragraphs output_base discarded_base folder_name doc_name fs1
               = Inr fs1"
    by (simp add: run fs1 map_add_twice)
  have same: "\<forall>fs' fs2. align_write all_paragraphs output_base discarded_base folder_name doc_name fs'
                      = Inr fs2
           \<longrightarrow> (\<forall>p. fs2 p = fs1 p \<or> (fs1 p = fs p \<and> fs2 p = fs' p))"
    by (auto simp: run fs1 map_add_def split: option.splits)
  from again same show ?thesis by (rule conjI)
qed


theorem align_write_idempotent_witness:
  "\<exists>fs1. align_write unequal_set [''extracted_paragraphs'']
            [''extracted_paragraphs'', ''discarded_texts''] ''Actualidad'' ''doc'' Map.empty = Inr fs1
     \<and> align_write unequal_set [''extracted_paragraphs'']
            [''extracted_paragraphs'', ''discarded_texts''] ''Actualidad'' ''doc'' fs1 = Inr fs1"
proof -
  have "unequal_set \<noteq> []" by (simp add: unequal_set_def)
  from align_write_overlay [OF this]
  obtain fs1 where r: "align_write unequal_set [''extracted_paragraphs'']
            [''extracted_paragraphs'', ''discarded_texts''] ''Actualidad'' ''doc'' Map.empty = Inr fs1"
    by blast
  from align_write_idempotent [OF r] r show ?thesis by blast
qed


section \<open>Properties of discovery\<close>

lemma groups_ok_mono: "groups_ok fp S fg \<Longrightarrow> S \<subseteq> T \<Longrightarrow> groups_ok fp T fg"
  unfolding groups_ok_def by blast

lemma groups_ok_step:
  assumes "groups_ok fp S fg"
  shows "groups_ok fp (insert name S) (group_file fp name fg)"
proof (cases "startswith name ''~''")
  case True
  then have "group_file fp name fg = fg" by (simp add: group_file_def)
  with assms show ?thesis by (auto intro: groups_ok_mono)
next
  case nt: False
  show ?thesis
  proof (cases "classify name")
    case None
    then have "group_file fp name fg = fg" by (simp add: group_file_def)
    with assms show ?thesis by (auto intro: groups_ok_mono)
  next
    case (Some lb)
    obtain lang base where lb: "lb = (lang, base)" by (cases lb)
    show ?thesis
    proof (cases "lang \<noteq> [] \<and> base \<noteq> []")
      case False
      then have "group_file fp name fg = fg" using nt Some lb by (auto simp: group_file_def)
      with assms show ?thesis by (auto intro: groups_ok_mono)
    next
      case True
      define m0 where "m0 = (case map_of fg base of None \<Rightarrow> [] | Some m \<Rightarrow> m)"
      have g: "group_file fp name fg
               = AList.update base (AList.update lang (fp @ [name]) m0) fg"
        using nt Some lb True by (simp add: group_file_def m0_def)
      have d0: "distinct (map fst m0)"
        using assms unfolding groups_ok_def m0_def by (auto split: option.splits)
      have p0: "\<forall>l p. map_of m0 l = Some p \<longrightarrow>
            (\<exists>n\<in>S. \<not> startswith n ''~'' \<and> p = fp @ [n] \<and> classify n = Some (l, base))"
        using assms unfolding groups_ok_def m0_def by (auto split: option.splits)
      show ?thesis
        unfolding g groups_ok_def
      proof (intro conjI allI impI)
        show "distinct (map fst (AList.update base (AList.update lang (fp @ [name]) m0) fg))"
          using assms unfolding groups_ok_def by (simp add: distinct_update)
      next
        fix b m assume bm: "map_of (AList.update base (AList.update lang (fp @ [name]) m0) fg) b = Some m"
        show "distinct (map fst m)"
        proof (cases "b = base")
          case True
          with bm have "m = AList.update lang (fp @ [name]) m0" by (simp add: update_conv')
          with d0 show ?thesis by (simp add: distinct_update)
        next
          case False
          with bm have "map_of fg b = Some m" by (simp add: update_conv')
          with assms show ?thesis unfolding groups_ok_def by blast
        qed
      next
        fix b m l p
        assume bm: "map_of (AList.update base (AList.update lang (fp @ [name]) m0) fg) b = Some m"
          and lp: "map_of m l = Some p"
        show "\<exists>n\<in>insert name S. \<not> startswith n ''~'' \<and> p = fp @ [n] \<and> classify n = Some (l, b)"
        proof (cases "b = base")
          case True
          with bm have m: "m = AList.update lang (fp @ [name]) m0" by (simp add: update_conv')
          show ?thesis
          proof (cases "l = lang")
            case True
            with lp m have "p = fp @ [name]" by (simp add: update_conv')
            with nt Some lb True \<open>b = base\<close> show ?thesis by simp
          next
            case False
            with lp m have "map_of m0 l = Some p" by (simp add: update_conv')
            with p0 \<open>b = base\<close> show ?thesis by blast
          qed
        next
          case False
          with bm have "map_of fg b = Some m" by (simp add: update_conv')
          with assms lp show ?thesis unfolding groups_ok_def by blast
        qed
      qed
    qed
  qed
qed

lemma groups_ok_fold:
  "groups_ok fp S fg \<Longrightarrow> groups_ok fp (S \<union> set ns) (fold (group_file fp) ns fg)"
proof (induction ns arbitrary: S fg)
  case Nil
  then show ?case by simp
next
  case (Cons n ns)
  from groups_ok_step [OF Cons.prems] have "groups_ok fp (insert n S) (group_file fp n fg)" .
  from Cons.IH [OF this] show ?case by simp
qed

lemma groups_ok_all:
  "groups_ok fp (set (glob_docx names)) (fold (group_file fp) (glob_docx names) [])"
  using groups_ok_fold [of fp "{}" "[]" "glob_docx names"] by (simp add: groups_ok_def)

lemma classify_with_lang:
  "classify_with pats name = Some (lang_code, base_name) \<Longrightarrow> lang_code \<in> fst ` set pats"
  by (induction pats name rule: classify_with.induct) (auto split: option.splits)

lemma classify_lang:
  "classify name = Some (lang_code, base_name) \<Longrightarrow> lang_code \<in> fst ` set language_patterns"
  unfolding classify_def by (rule classify_with_lang)


lemma group_names:
  assumes "groups_ok fp S fg" "map_of fg base_name = Some lang_files"
    "(lang_code, p) \<in> set lang_files"
  shows "\<exists>name\<in>S. \<not> startswith name ''~'' \<and> p = fp @ [name] \<and>
           classify name = Some (lang_code, base_name)"
proof -
  from assms(1,2) have d: "distinct (map fst lang_files)" unfolding groups_ok_def by blast
  with assms(3) have "map_of lang_files lang_code = Some p" by simp
  with assms(1,2) show ?thesis unfolding groups_ok_def by blast
qed

lemma card_language_patterns: "card (fst ` set language_patterns) = 5"
  by (simp add: language_patterns_def)

lemma language_codes:
  "fst ` set language_patterns = {''castellano'', ''ca_ES'', ''vl_ES'', ''gl_ES'', ''eu_ES''}"
  by (simp add: language_patterns_def)

lemma discover_folder_entry:
  assumes "(base_name, lang_files) \<in> set (discover_folder fp names)"
  shows "fst ` set lang_files = {''castellano'', ''ca_ES'', ''vl_ES'', ''gl_ES'', ''eu_ES''}
     \<and> (\<forall>(lang_code, p) \<in> set lang_files. \<exists>name \<in> set names.
           \<not> startswith name ''~'' \<and> p = fp @ [name] \<and>
           classify name = Some (lang_code, base_name))
     \<and> 5 \<le> length (matched_files base_name names)"
proof -
  let ?fg = "fold (group_file fp) (glob_docx names) []"
  have ok: "groups_ok fp (set (glob_docx names)) ?fg" by (rule groups_ok_all)
  from assms have mem: "(base_name, lang_files) \<in> set ?fg" and len: "length lang_files = 5"
    by (auto simp: discover_folder_def Let_def)
  from ok have "distinct (map fst ?fg)" unfolding groups_ok_def by blast
  with mem have look: "map_of ?fg base_name = Some lang_files" by simp
  from ok look have d: "distinct (map fst lang_files)" unfolding groups_ok_def by blast
  have names: "\<exists>name\<in>set (glob_docx names). \<not> startswith name ''~'' \<and> p = fp @ [name] \<and>
           classify name = Some (lang_code, base_name)"
    if "(lang_code, p) \<in> set lang_files" for lang_code p
    using group_names [OF ok look that] .
  have sub: "fst ` set lang_files \<subseteq> fst ` set language_patterns"
  proof
    fix l assume "l \<in> fst ` set lang_files"
    then obtain p where "(l, p) \<in> set lang_files" by auto
    from names [OF this] obtain name where "classify name = Some (l, base_name)" by blast
    then show "l \<in> fst ` set language_patterns" by (rule classify_lang)
  qed
  have "card (fst ` set lang_files) = 5"
    using d len by (metis distinct_card length_map set_map)
  with sub have "fst ` set lang_files = fst ` set language_patterns"
    by (intro card_subset_eq) (simp_all add: card_language_patterns)
  then have A: "fst ` set lang_files = {''castellano'', ''ca_ES'', ''vl_ES'', ''gl_ES'', ''eu_ES''}"
    by (simp only: language_codes)
  have B: "\<forall>(lang_code, p) \<in> set lang_files. \<exists>name \<in> set names.
           \<not> startswith name ''~'' \<and> p = fp @ [name] \<and>
           classify name = Some (lang_code, base_name)"
  proof (intro ballI, clarify)
    fix l p assume "(l, p) \<in> set lang_files"
    from names [OF this] show "\<exists>name \<in> set names.
           \<not> startswith name ''~'' \<and> p = fp @ [name] \<and> classify name = Some (l, base_name)"
      by (auto simp: glob_docx_def)
  qed
  have "fst ` set lang_files
        \<subseteq> (\<lambda>name. fst (the (classify name))) ` set (matched_files base_name names)"
  proof
    fix l assume "l \<in> fst ` set lang_files"
    then obtain p where "(l, p) \<in> set lang_files" by auto
    from names [OF this] obtain name where n: "name \<in> set (glob_docx names)"
      "\<not> startswith name ''~''" "classify name = Some (l, base_name)" by blast
    then have "name \<in> set (matched_files base_name names)" by (simp add: matched_files_def)
    moreover have "l = fst (the (classify name))" using n(3) by simp
    ultimately show "l \<in> (\<lambda>name. fst (the (classify name))) ` set (matched_files base_name names)"
      by blast
  qed
  then have "card (fst ` set lang_files)
             \<le> card ((\<lambda>name. fst (the (classify name))) ` set (matched_files base_name names))"
    by (intro card_mono) simp_all
  also have "\<dots> \<le> card (set (matched_files base_name names))" by (rule card_image_le) simp
  also have "\<dots> \<le> length (matched_files base_name names)" by (rule card_length)
  finally have C: "5 \<le> length (matched_files base_name names)"
    using \<open>card (fst ` set lang_files) = 5\<close> by simp
  from A B C show ?thesis by blast
qed

lemma update_mem:
  "(a, b) \<in> set (AList.update k v al) \<Longrightarrow> (a, b) = (k, v) \<or> (a, b) \<in> set al"
  by (induction al) (auto split: if_splits)

lemma discover_sets_fold:
  assumes "\<forall>(f, ds) \<in> set acc. \<exists>names. listing f = Some names \<and> ds = discover_folder (bp @ [f]) names"
  shows "\<forall>(f, ds) \<in> set (fold (\<lambda>folder_name all_sets.
             (case listing folder_name of
                None \<Rightarrow> all_sets
              | Some names \<Rightarrow>
                  let complete_sets = discover_folder (bp @ [folder_name]) names
                  in if complete_sets \<noteq> []
                     then AList.update folder_name complete_sets all_sets
                     else all_sets)) fs acc).
           \<exists>names. listing f = Some names \<and> ds = discover_folder (bp @ [f]) names"
  using assms
proof (induction fs arbitrary: acc)
  case Nil
  then show ?case by simp
next
  case (Cons f fs)
  show ?case
    unfolding fold_simps
  proof (rule Cons.IH)
    show "\<forall>(f', ds) \<in> set (case listing f of
                None \<Rightarrow> acc
              | Some names \<Rightarrow>
                  let complete_sets = discover_folder (bp @ [f]) names
                  in if complete_sets \<noteq> []
                     then AList.update f complete_sets acc
                     else acc).
           \<exists>names. listing f' = Some names \<and> ds = discover_folder (bp @ [f']) names"
      using Cons.prems by (auto simp: Let_def split: option.splits dest!: update_mem)
  qed
qed

lemma discover_sets_entry:
  assumes "(folder_name, doc_sets) \<in> set (discover_document_sets base_path listing)"
  shows "\<exists>names. listing folder_name = Some names
           \<and> doc_sets = discover_folder (base_path @ [folder_name]) names"
  using discover_sets_fold [of "[]" listing base_path folders] assms
  unfolding discover_document_sets_def by auto


text \<open>
  Claim C5. Whenever discovery maps a folder to document sets and a base name of them to
  its language files, the folder exists, the language codes collected for the base name
  are exactly the five codes, every collected path is a file of the folder that is not
  temporary and is classified with that code and base name, and at least five files of
  the folder match the base name. So a base name with one to four matched files is not
  in the result; the witness shows it for the folder that holds only
  \<open>doc_castellano\<close> and \<open>doc_ca-ES\<close>.
\<close>

theorem discovery_complete_sets_only:
  assumes "(folder_name, doc_sets) \<in> set (discover_document_sets base_path listing)"
    and "(base_name, lang_files) \<in> set doc_sets"
  shows "\<exists>names. listing folder_name = Some names
     \<and> fst ` set lang_files = {''castellano'', ''ca_ES'', ''vl_ES'', ''gl_ES'', ''eu_ES''}
     \<and> (\<forall>(lang_code, p) \<in> set lang_files. \<exists>name \<in> set names.
           \<not> startswith name ''~'' \<and> p = base_path @ [folder_name, name] \<and>
           classify name = Some (lang_code, base_name))
     \<and> 5 \<le> length (matched_files base_name names)"
proof -
  from discover_sets_entry [OF assms(1)] obtain names where
    n: "listing folder_name = Some names"
    and ds: "doc_sets = discover_folder (base_path @ [folder_name]) names" by blast
  from assms(2) have "(base_name, lang_files) \<in> set (discover_folder (base_path @ [folder_name]) names)"
    by (simp only: ds)
  from discover_folder_entry [OF this] n show ?thesis by auto
qed

lemma complete_listing_result:
  "discover_document_sets [''original_texts''] complete_listing
   = [(''Presidente'',
       [(''doc'',
         [(''castellano'', [''original_texts'', ''Presidente'', ''doc_castellano.docx'']),
          (''ca_ES'', [''original_texts'', ''Presidente'', ''doc_ca-ES.docx'']),
          (''vl_ES'', [''original_texts'', ''Presidente'', ''doc_va_ES.docx'']),
          (''gl_ES'', [''original_texts'', ''Presidente'', ''doc-gl-ES.docx'']),
          (''eu_ES'', [''original_texts'', ''Presidente'', ''doc_eu_ES.docx''])])])]"
  by (simp add: discover_document_sets_def folders_def complete_listing_def discover_folder_def
      glob_docx_def endswith_def startswith_def group_file_def classify_def language_patterns_def
      match_pattern_def)

lemma partial_matched:
  "matched_files ''doc'' [''doc_castellano.docx'', ''doc_ca-ES.docx'']
   = [''doc_castellano.docx'', ''doc_ca-ES.docx'']"
  by (simp add: matched_files_def glob_docx_def endswith_def startswith_def classify_def
      language_patterns_def match_pattern_def)

theorem discovery_complete_sets_only_witness:
  "(\<nexists>doc_sets lang_files.
      (''Presidente'', doc_sets) \<in> set (discover_document_sets [''original_texts''] partial_listing)
      \<and> (''doc'', lang_files) \<in> set doc_sets)
   \<and> (\<exists>doc_sets lang_files.
      (''Presidente'', doc_sets) \<in> set (discover_document_sets [''original_texts''] complete_listing)
      \<and> (''doc'', lang_files) \<in> set doc_sets
      \<and> fst ` set lang_files = {''castellano'', ''ca_ES'', ''vl_ES'', ''gl_ES'', ''eu_ES''})"
proof
  show "\<nexists>doc_sets lang_files.
      (''Presidente'', doc_sets) \<in> set (discover_document_sets [''original_texts''] partial_listing)
      \<and> (''doc'', lang_files) \<in> set doc_sets"
  proof
    assume "\<exists>doc_sets lang_files.
      (''Presidente'', doc_sets) \<in> set (discover_document_sets [''original_texts''] partial_listing)
      \<and> (''doc'', lang_files) \<in> set doc_sets"
    then obtain doc_sets lang_files where
      a: "(''Presidente'', doc_sets) \<in> set (discover_document_sets [''original_texts''] partial_listing)"
      and b: "(''doc'', lang_files) \<in> set doc_sets" by blast
    from discovery_complete_sets_only [OF a b]
    have "5 \<le> length (matched_files ''doc'' [''doc_castellano.docx'', ''doc_ca-ES.docx''])"
      by (auto simp: partial_listing_def)
    then show False by (simp only: partial_matched) simp
  qed
next
  let ?lf = "[(''castellano'', [''original_texts'', ''Presidente'', ''doc_castellano.docx'']),
          (''ca_ES'', [''original_texts'', ''Presidente'', ''doc_ca-ES.docx'']),
          (''vl_ES'', [''original_texts'', ''Presidente'', ''doc_va_ES.docx'']),
          (''gl_ES'', [''original_texts'', ''Presidente'', ''doc-gl-ES.docx'']),
          (''eu_ES'', [''original_texts'', ''Presidente'', ''doc_eu_ES.docx''])]"
  have a: "(''Presidente'', [(''doc'', ?lf)])
           \<in> set (discover_document_sets [''original_texts''] complete_listing)"
    by (simp only: complete_listing_result) simp
  have b: "(''doc'', ?lf) \<in> set [(''doc'', ?lf)]" by simp
  from discovery_complete_sets_only [OF a b]
  have "fst ` set ?lf = {''castellano'', ''ca_ES'', ''vl_ES'', ''gl_ES'', ''eu_ES''}" by blast
  with a b show "\<exists>doc_sets lang_files.
      (''Presidente'', doc_sets) \<in> set (discover_document_sets [''original_texts''] complete_listing)
      \<and> (''doc'', lang_files) \<in> set doc_sets
      \<and> fst ` set lang_files = {''castellano'', ''ca_ES'', ''vl_ES'', ''gl_ES'', ''eu_ES''}"
    by blast
qed


section \<open>Properties of the Verifier\<close>

lemma count_paragraphs_file:
  "count_paragraphs name (File content) = Inr (nonblank_line_count content)"
  by (simp add: count_paragraphs_def read_text_def nonblank_line_count_def strip_empty_iff)

lemma count_languages_files:
  assumes "\<forall>lang\<in>set langs. \<forall>es. map_of entries (lang @ ''.txt'') \<noteq> Some (Dir es)"
  shows "\<exists>counts. count_languages entries langs = Inr counts
     \<and> map snd counts
        = List.map_filter
            (\<lambda>lang. case map_of entries (lang @ ''.txt'') of
                  Some (File content) \<Rightarrow> Some (nonblank_line_count content)
                | _ \<Rightarrow> None) langs"
  using assms
proof (induction langs)
  case Nil
  show ?case by (simp add: map_filter_simps)
next
  case (Cons lang langs)
  then obtain counts where c: "count_languages entries langs = Inr counts"
    "map snd counts = List.map_filter
            (\<lambda>lang. case map_of entries (lang @ ''.txt'') of
                  Some (File content) \<Rightarrow> Some (nonblank_line_count content)
                | _ \<Rightarrow> None) langs" by auto
  show ?case
  proof (cases "map_of entries (lang @ ''.txt'')")
    case None
    with c show ?thesis by (simp add: map_filter_simps)
  next
    case (Some nd)
    with Cons.prems obtain content where "nd = File content" by (cases nd) auto
    with Some c show ?thesis by (simp add: map_filter_simps count_paragraphs_file)
  qed
qed

lemma remdups_one_iff:
  "length (remdups xs) = 1 \<longleftrightarrow> xs \<noteq> [] \<and> (\<forall>x\<in>set xs. \<forall>y\<in>set xs. x = y)"
proof -
  have "length (remdups xs) = card (set xs)" by (rule length_remdups_card_conv)
  moreover have "card (set xs) = 1 \<longleftrightarrow> xs \<noteq> [] \<and> (\<forall>x\<in>set xs. \<forall>y\<in>set xs. x = y)"
  proof
    assume "card (set xs) = 1"
    then obtain a where "set xs = {a}" by (auto simp: card_1_singleton_iff)
    then show "xs \<noteq> [] \<and> (\<forall>x\<in>set xs. \<forall>y\<in>set xs. x = y)" by auto
  next
    assume a: "xs \<noteq> [] \<and> (\<forall>x\<in>set xs. \<forall>y\<in>set xs. x = y)"
    then obtain x where "x \<in> set xs" by (cases xs) auto
    with a have "set xs = {x}" by auto
    then show "card (set xs) = 1" by simp
  qed
  ultimately show ?thesis by simp
qed

lemma verify_document_files:
  assumes "\<forall>lang\<in>set languages. \<forall>es. map_of entries (lang @ ''.txt'') \<noteq> Some (Dir es)"
  shows "verify_document entries
         = Inr (present_counts entries \<noteq> [] \<and>
                (\<forall>n\<in>set (present_counts entries). \<forall>m\<in>set (present_counts entries). n = m))"
proof -
  from count_languages_files [OF assms] obtain counts where
    "count_languages entries languages = Inr counts" "map snd counts = present_counts entries"
    unfolding present_counts_def by blast
  then show ?thesis using remdups_one_iff [of "present_counts entries"]
    by (simp add: verify_document_def)
qed

lemma verify_doc_dirs_result:
  assumes "verify_doc_dirs dirs st = Inr st'"
  shows "reports st' = reports st @ map (\<lambda>(doc_name, es). (doc_name, verify_document es = Inr True)) dirs
     \<and> all_ok st' = (all_ok st \<and> (\<forall>(doc_name, es)\<in>set dirs. verify_document es = Inr True))
     \<and> total_docs st' = total_docs st + length dirs"
  using assms
proof (induction dirs arbitrary: st)
  case Nil
  then show ?case by simp
next
  case (Cons d dirs)
  obtain doc_name es where d: "d = (doc_name, es)" by (cases d)
  from Cons.prems d obtain ok where ok: "verify_document es = Inr ok"
    and rest: "verify_doc_dirs dirs
            (st\<lparr> total_docs := total_docs st + 1,
                 reports := reports st @ [(doc_name, ok)],
                 all_ok := (if ok then all_ok st else False) \<rparr>) = Inr st'"
    by (auto split: sum.splits)
  from Cons.IH [OF rest] ok d show ?case by auto
qed

lemma verify_folders_result:
  assumes "verify_folders base fs st = Inr st'"
  shows "reports st' = reports st @ concat (map (folder_reports base) fs)
     \<and> all_ok st' = (all_ok st \<and> (\<forall>(doc_name, ok)\<in>set (concat (map (folder_reports base) fs)). ok))
     \<and> total_docs st' = total_docs st + length (concat (map (folder_reports base) fs))"
  using assms
proof (induction fs arbitrary: st)
  case Nil
  then show ?case by simp
next
  case (Cons f fs)
  show ?case
  proof (cases "map_of base f")
    case None
    with Cons.prems have "verify_folders base fs st = Inr st'" by simp
    from Cons.IH [OF this] None show ?thesis by (simp add: folder_reports_def)
  next
    case (Some nd)
    show ?thesis
    proof (cases nd)
      case (File c)
      with Some Cons.prems show ?thesis by simp
    next
      case (Dir entries)
      with Some Cons.prems obtain st1 where
        s1: "verify_doc_dirs (sort_key fst (subdirs entries)) st = Inr st1"
        and s2: "verify_folders base fs st1 = Inr st'"
        by (auto split: sum.splits)
      have fr: "folder_reports base f
                = map (\<lambda>(doc_name, es). (doc_name, verify_document es = Inr True))
                    (sort_key fst (subdirs entries))"
        using Some Dir by (simp add: folder_reports_def)
      from verify_doc_dirs_result [OF s1] Cons.IH [OF s2] show ?thesis
        unfolding fr [symmetric] by (auto simp: fr)
    qed
  qed
qed


lemma subdirs_mem: "(name, es) \<in> set (subdirs entries) \<longleftrightarrow> (name, Dir es) \<in> set entries"
  unfolding subdirs_def by (induction entries) (auto simp: map_filter_simps split: node.splits)

lemma verify_doc_dirs_total:
  assumes "\<forall>(doc_name, es)\<in>set dirs. \<exists>ok. verify_document es = Inr ok"
  shows "\<exists>st'. verify_doc_dirs dirs st = Inr st'"
  using assms
proof (induction dirs arbitrary: st)
  case Nil
  show ?case by simp
next
  case (Cons d dirs)
  obtain doc_name es where d: "d = (doc_name, es)" by (cases d)
  with Cons.prems obtain ok where ok: "verify_document es = Inr ok" by auto
  from Cons.prems have "\<forall>(doc_name, es)\<in>set dirs. \<exists>ok. verify_document es = Inr ok" by simp
  from Cons.IH [OF this] d ok show ?case by simp
qed

lemma verify_folders_total:
  assumes "\<forall>folder_name\<in>set fs.
        case map_of base folder_name of
          None \<Rightarrow> True
        | Some (File _) \<Rightarrow> False
        | Some (Dir entries) \<Rightarrow>
            (\<forall>(doc_name, es)\<in>set (subdirs entries).
               \<forall>lang\<in>set languages. \<forall>x. map_of es (lang @ ''.txt'') \<noteq> Some (Dir x))"
  shows "\<exists>st'. verify_folders base fs st = Inr st'"
  using assms
proof (induction fs arbitrary: st)
  case Nil
  show ?case by simp
next
  case (Cons f fs)
  from Cons.prems have rest: "\<forall>folder_name\<in>set fs.
        case map_of base folder_name of
          None \<Rightarrow> True
        | Some (File _) \<Rightarrow> False
        | Some (Dir entries) \<Rightarrow>
            (\<forall>(doc_name, es)\<in>set (subdirs entries).
               \<forall>lang\<in>set languages. \<forall>x. map_of es (lang @ ''.txt'') \<noteq> Some (Dir x))" by simp
  show ?case
  proof (cases "map_of base f")
    case None
    with Cons.IH [OF rest] show ?thesis by simp
  next
    case (Some nd)
    show ?thesis
    proof (cases nd)
      case (File c)
      with Some Cons.prems show ?thesis by simp
    next
      case (Dir entries)
      with Some Cons.prems have ok: "\<forall>(doc_name, es)\<in>set (subdirs entries).
               \<forall>lang\<in>set languages. \<forall>x. map_of es (lang @ ''.txt'') \<noteq> Some (Dir x)" by simp
      have "\<forall>(doc_name, es)\<in>set (sort_key fst (subdirs entries)). \<exists>ok. verify_document es = Inr ok"
      proof (intro ballI, clarify)
        fix doc_name es assume "(doc_name, es) \<in> set (sort_key fst (subdirs entries))"
        then have "(doc_name, es) \<in> set (subdirs entries)" by simp
        with ok have "\<forall>lang\<in>set languages. \<forall>x. map_of es (lang @ ''.txt'') \<noteq> Some (Dir x)" by blast
        from verify_document_files [OF this] show "\<exists>ok. verify_document es = Inr ok" by blast
      qed
      from verify_doc_dirs_total [OF this] obtain st1 where
        "verify_doc_dirs (sort_key fst (subdirs entries)) st = Inr st1" by blast
      with Cons.IH [OF rest, of st1] Some Dir show ?thesis by auto
    qed
  qed
qed

lemma verify_all_documents_readable:
  assumes "readable_tree base"
  shows "\<exists>st. verify_all_documents base = Inr st
     \<and> reports st = concat (map (folder_reports base) verified_folders)
     \<and> all_ok st = (\<forall>(doc_name, ok)\<in>set (reports st). ok)
     \<and> total_docs st = length (reports st)"
proof -
  from verify_folders_total [OF assms [unfolded readable_tree_def]]
  obtain st where st: "verify_all_documents base = Inr st"
    unfolding verify_all_documents_def by blast
  from verify_folders_result [OF st [unfolded verify_all_documents_def]] st
  show ?thesis by simp
qed

lemma set_map_filter_conv: "set (List.map_filter f xs) = {y. \<exists>x\<in>set xs. f x = Some y}"
  by (induction xs) (auto simp: map_filter_simps split: option.splits)

lemma file_count_Some:
  "((case m of Some (File content) \<Rightarrow> Some (nonblank_line_count content) | _ \<Rightarrow> None) = Some n)
   = (\<exists>content. m = Some (File content) \<and> n = nonblank_line_count content)"
proof (cases m)
  case None
  then show ?thesis by simp
next
  case (Some nd)
  then show ?thesis by (cases nd) auto
qed

lemma set_present_counts:
  "set (present_counts entries)
   = {n. \<exists>lang\<in>set languages. \<exists>content.
        map_of entries (lang @ ''.txt'') = Some (File content) \<and> n = nonblank_line_count content}"
  unfolding present_counts_def set_map_filter_conv file_count_Some ..

lemma all_five_equal_present:
  assumes "\<forall>lang\<in>set languages. \<exists>content. map_of entries (lang @ ''.txt'') = Some (File content)"
  shows "(present_counts entries \<noteq> [] \<and>
          (\<forall>n\<in>set (present_counts entries). \<forall>m\<in>set (present_counts entries). n = m))
         = all_five_equal entries"
proof -
  have ne: "set (present_counts entries) \<noteq> {}"
    using assms unfolding set_present_counts by (auto simp: languages_def)
  have "(\<forall>n\<in>set (present_counts entries). \<forall>m\<in>set (present_counts entries). n = m)
        = all_five_equal entries"
  proof
    assume eq: "\<forall>n\<in>set (present_counts entries). \<forall>m\<in>set (present_counts entries). n = m"
    from ne obtain n where n: "n \<in> set (present_counts entries)"
      by (cases "present_counts entries") auto
    have "\<forall>lang\<in>set languages. \<exists>content.
        map_of entries (lang @ ''.txt'') = Some (File content) \<and> nonblank_line_count content = n"
    proof
      fix lang assume l: "lang \<in> set languages"
      with assms obtain content where c: "map_of entries (lang @ ''.txt'') = Some (File content)"
        by blast
      with l have "nonblank_line_count content \<in> set (present_counts entries)"
        unfolding set_present_counts by blast
      with eq n have "nonblank_line_count content = n" by blast
      with c show "\<exists>content.
        map_of entries (lang @ ''.txt'') = Some (File content) \<and> nonblank_line_count content = n"
        by blast
    qed
    then show "all_five_equal entries" unfolding all_five_equal_def by blast
  next
    assume "all_five_equal entries"
    then obtain n where n: "\<forall>lang\<in>set languages. \<exists>content.
        map_of entries (lang @ ''.txt'') = Some (File content) \<and> nonblank_line_count content = n"
      unfolding all_five_equal_def by blast
    have "set (present_counts entries) \<subseteq> {n}"
      unfolding set_present_counts using n by fastforce
    then show "\<forall>n\<in>set (present_counts entries). \<forall>m\<in>set (present_counts entries). n = m"
      by blast
  qed
  with ne show ?thesis by auto
qed


lemma nonblank_simps:
  "nonblank_line_count ''a'' = 1" "nonblank_line_count ''b'' = 1" "nonblank_line_count ''c'' = 1"
  "nonblank_line_count ''d'' = 1" "nonblank_line_count ''e'' = 1"
  "nonblank_line_count ''uno'' = 1" "nonblank_line_count ''u'' = 1"
  by (simp_all add: nonblank_line_count_def newline_def isspace_def)

lemma readable_example: "readable_tree tree_with_empty_document"
  by (simp add: readable_tree_def verified_folders_def tree_with_empty_document_def
      subdirs_def map_filter_simps languages_def five_files_def)

lemma five_files_equal: "all_five_equal five_files"
  unfolding all_five_equal_def
  by (rule exI [of _ 1]) (simp add: languages_def five_files_def nonblank_simps)

text \<open>
  Claim C6, as amended. In a document directory where all five language files exist as
  regular files, the Verifier reports the document as passing exactly when the five
  counts of non-blank lines are equal. On a readable tree it returns, reports every
  document directory of the four folders that exist, in order, and its aggregate result
  is a pass exactly when every reported document passes. The count of a file is its
  number of lines that are not all whitespace. The Verifier only reads: the model has no
  filesystem output, as the source has no write. The claim as stated fails where a
  language file is missing: the counterexample is a directory holding one language file
  only, which passes.
\<close>

theorem verifier_five_files:
  "((\<forall>lang\<in>set languages. \<exists>content. map_of entries (lang @ ''.txt'') = Some (File content))
      \<longrightarrow> verify_document entries = Inr (all_five_equal entries))
   \<and> (readable_tree base \<longrightarrow>
        (\<exists>st. verify_all_documents base = Inr st
           \<and> reports st = concat (map (folder_reports base) verified_folders)
           \<and> all_ok st = (\<forall>(doc_name, ok)\<in>set (reports st). ok)
           \<and> total_docs st = length (reports st)))
   \<and> count_paragraphs name (File content) = Inr (nonblank_line_count content)"
proof (intro conjI impI)
  assume five: "\<forall>lang\<in>set languages. \<exists>content. map_of entries (lang @ ''.txt'') = Some (File content)"
  then have "\<forall>lang\<in>set languages. \<forall>es. map_of entries (lang @ ''.txt'') \<noteq> Some (Dir es)"
    by fastforce
  from verify_document_files [OF this] all_five_equal_present [OF five]
  show "verify_document entries = Inr (all_five_equal entries)" by simp
next
  assume "readable_tree base"
  then show "\<exists>st. verify_all_documents base = Inr st
           \<and> reports st = concat (map (folder_reports base) verified_folders)
           \<and> all_ok st = (\<forall>(doc_name, ok)\<in>set (reports st). ok)
           \<and> total_docs st = length (reports st)"
    by (rule verify_all_documents_readable)
next
  show "count_paragraphs name (File content) = Inr (nonblank_line_count content)"
    by (rule count_paragraphs_file)
qed

theorem verifier_five_files_witness:
  "verify_document five_files = Inr True
   \<and> (\<exists>st. verify_all_documents tree_with_empty_document = Inr st
        \<and> reports st = [(''doc1'', True), (''doc2'', False)]
        \<and> \<not> all_ok st \<and> total_docs st = 2)"
proof -
  have five: "\<forall>lang\<in>set languages. \<exists>content. map_of five_files (lang @ ''.txt'') = Some (File content)"
    by (simp add: languages_def five_files_def)
  from verifier_five_files [of five_files tree_with_empty_document "''x''" "''a''"]
  have d: "verify_document five_files = Inr (all_five_equal five_files)"
    and t: "\<exists>st. verify_all_documents tree_with_empty_document = Inr st
           \<and> reports st = concat (map (folder_reports tree_with_empty_document) verified_folders)
           \<and> all_ok st = (\<forall>(doc_name, ok)\<in>set (reports st). ok)
           \<and> total_docs st = length (reports st)"
    using five readable_example by blast+
  have d': "verify_document five_files = Inr True" using d five_files_equal by simp
  have e: "verify_document [] = Inr False"
    by (simp add: verify_document_def languages_def)
  have r: "concat (map (folder_reports tree_with_empty_document) verified_folders)
           = [(''doc1'', True), (''doc2'', False)]"
    by (simp add: folder_reports_def verified_folders_def tree_with_empty_document_def
        subdirs_def map_filter_simps d' e)
  from t obtain st where st: "verify_all_documents tree_with_empty_document = Inr st"
    "reports st = [(''doc1'', True), (''doc2'', False)]"
    "all_ok st = (\<forall>(doc_name, ok)\<in>set (reports st). ok)" "total_docs st = length (reports st)"
    unfolding r by blast
  from st have "\<not> all_ok st" "total_docs st = 2" by simp_all
  with st d' show ?thesis by blast
qed

theorem verifier_five_files_counterexample:
  "verify_document [(''castellano.txt'', File ''uno'')] = Inr True
   \<and> \<not> all_five_equal [(''castellano.txt'', File ''uno'')]"
proof
  show "verify_document [(''castellano.txt'', File ''uno'')] = Inr True"
    by (simp add: verify_document_def languages_def count_paragraphs_file nonblank_simps)
  show "\<not> all_five_equal [(''castellano.txt'', File ''uno'')]"
    by (simp add: all_five_equal_def languages_def)
qed

text \<open>
  Claim C10. Where no language entry of a document directory is itself a directory, the
  Verifier compares only the language files that exist: the document passes exactly when
  at least one exists and all existing ones have the same count of non-blank lines. A
  document directory that holds none of the five language files is reported as a
  mismatch, and the aggregate result of the run fails.
\<close>

theorem verifier_present_files_only:
  "((\<forall>lang\<in>set languages. \<forall>es. map_of entries (lang @ ''.txt'') \<noteq> Some (Dir es))
      \<longrightarrow> verify_document entries
           = Inr (present_counts entries \<noteq> [] \<and>
                  (\<forall>n\<in>set (present_counts entries). \<forall>m\<in>set (present_counts entries). n = m)))
   \<and> ((\<forall>lang\<in>set languages. map_of entries (lang @ ''.txt'') = None)
        \<and> readable_tree base \<and> folder_name \<in> set verified_folders
        \<and> map_of base folder_name = Some (Dir folder_entries)
        \<and> (doc_name, Dir entries) \<in> set folder_entries
      \<longrightarrow> verify_document entries = Inr False
          \<and> (\<exists>st. verify_all_documents base = Inr st \<and> \<not> all_ok st
                \<and> (doc_name, False) \<in> set (reports st)))"
proof (intro conjI impI)
  assume "\<forall>lang\<in>set languages. \<forall>es. map_of entries (lang @ ''.txt'') \<noteq> Some (Dir es)"
  then show "verify_document entries
           = Inr (present_counts entries \<noteq> [] \<and>
                  (\<forall>n\<in>set (present_counts entries). \<forall>m\<in>set (present_counts entries). n = m))"
    by (rule verify_document_files)
next
  assume a: "(\<forall>lang\<in>set languages. map_of entries (lang @ ''.txt'') = None)
        \<and> readable_tree base \<and> folder_name \<in> set verified_folders
        \<and> map_of base folder_name = Some (Dir folder_entries)
        \<and> (doc_name, Dir entries) \<in> set folder_entries"
  then have none: "\<forall>lang\<in>set languages. map_of entries (lang @ ''.txt'') = None" by blast
  then have nd: "\<forall>lang\<in>set languages. \<forall>es. map_of entries (lang @ ''.txt'') \<noteq> Some (Dir es)"
    by simp
  have "set (present_counts entries) = {}" unfolding set_present_counts using none by simp
  then have "present_counts entries = []" by simp
  with verify_document_files [OF nd] show "verify_document entries = Inr False" by simp
next
  assume a: "(\<forall>lang\<in>set languages. map_of entries (lang @ ''.txt'') = None)
        \<and> readable_tree base \<and> folder_name \<in> set verified_folders
        \<and> map_of base folder_name = Some (Dir folder_entries)
        \<and> (doc_name, Dir entries) \<in> set folder_entries"
  then have none: "\<forall>lang\<in>set languages. map_of entries (lang @ ''.txt'') = None" by blast
  then have nd: "\<forall>lang\<in>set languages. \<forall>es. map_of entries (lang @ ''.txt'') \<noteq> Some (Dir es)"
    by simp
  have "set (present_counts entries) = {}" unfolding set_present_counts using none by simp
  then have "present_counts entries = []" by simp
  with verify_document_files [OF nd] have f: "verify_document entries = Inr False" by simp
  from a have "(doc_name, entries) \<in> set (sort_key fst (subdirs folder_entries))"
    by (simp add: subdirs_mem)
  then have "(doc_name, verify_document entries = Inr True)
             \<in> set (folder_reports base folder_name)"
    using a by (force simp: folder_reports_def)
  with f have "(doc_name, False) \<in> set (folder_reports base folder_name)" by simp
  with a have m: "(doc_name, False) \<in> set (concat (map (folder_reports base) verified_folders))"
    by auto
  from a verify_all_documents_readable [of base] obtain st where
    st: "verify_all_documents base = Inr st"
      "reports st = concat (map (folder_reports base) verified_folders)"
      "all_ok st = (\<forall>(doc_name, ok)\<in>set (reports st). ok)" by blast
  from st m have "(doc_name, False) \<in> set (reports st)" by simp
  moreover from this st(3) have "\<not> all_ok st" by blast
  ultimately show "\<exists>st. verify_all_documents base = Inr st \<and> \<not> all_ok st
                \<and> (doc_name, False) \<in> set (reports st)"
    using st(1) by blast
qed

theorem verifier_present_files_only_witness:
  "verify_document two_equal_files = Inr True
   \<and> verify_document [] = Inr False
   \<and> (\<exists>st. verify_all_documents tree_with_empty_document = Inr st \<and> \<not> all_ok st
        \<and> (''doc2'', False) \<in> set (reports st))"
proof -
  have h1: "\<forall>lang\<in>set languages. \<forall>es. map_of two_equal_files (lang @ ''.txt'') \<noteq> Some (Dir es)"
    by (simp add: languages_def two_equal_files_def)
  have pc: "present_counts two_equal_files = [1, 1]"
    by (simp add: present_counts_def languages_def two_equal_files_def map_filter_simps
        nonblank_simps)
  from verifier_present_files_only [of two_equal_files] h1
  have "verify_document two_equal_files
           = Inr (present_counts two_equal_files \<noteq> [] \<and>
                  (\<forall>n\<in>set (present_counts two_equal_files).
                     \<forall>m\<in>set (present_counts two_equal_files). n = m))" by blast
  then have a: "verify_document two_equal_files = Inr True" by (simp add: pc)
  have h2: "(\<forall>lang\<in>set languages. map_of [] (lang @ ''.txt'') = None)
        \<and> readable_tree tree_with_empty_document \<and> ''Actualidad'' \<in> set verified_folders
        \<and> map_of tree_with_empty_document ''Actualidad''
            = Some (Dir [(''doc1'', Dir five_files), (''doc2'', Dir [])])
        \<and> (''doc2'', Dir []) \<in> set [(''doc1'', Dir five_files), (''doc2'', Dir [])]"
    using readable_example by (simp add: verified_folders_def tree_with_empty_document_def)
  from verifier_present_files_only [of "[]" tree_with_empty_document "''Actualidad''"
      "[(''doc1'', Dir five_files), (''doc2'', Dir [])]" "''doc2''"] h2
  have b: "verify_document [] = Inr False
          \<and> (\<exists>st. verify_all_documents tree_with_empty_document = Inr st \<and> \<not> all_ok st
                \<and> (''doc2'', False) \<in> set (reports st))" by blast
  from a b show ?thesis by blast
qed


section \<open>Properties of the Consolidator\<close>






























lemmas eval_defs = glob_txt_def endswith_def startswith_def LANG_MAPPING_def stem_def
  read_paragraphs_def paragraph_sep_def newline_def strip_def lstrip_def rstrip_def
  isspace_def rstrip_newline_def check_counts_def write_paragraphs_def




lemma stage1_run:
  "consolidate_parallel_texts stage1_tree
   = Inr \<lparr> output_files = (\<lambda>lang_code. [])
             (''es'' := ''uno'' @ [newline] @ ''dos'' @ [newline],
              ''ca'' := ''u'' @ [newline] @ ''dos'' @ [newline],
              ''eu'' := ''bat'' @ [newline] @ ''bi'' @ [newline]),
           total_paragraphs = 2, document_count = 1, warnings = [] \<rparr>"
  by (simp add: consolidate_parallel_texts_def stage1_tree_def
      consolidate_document_def initial_state_def eval_defs)

lemmas count_defs = master_line_counts_def LANG_MAPPING_def count_lines_def newline_def
  strip_def lstrip_def rstrip_def isspace_def

text \<open>
  Claim C1 does not hold of the code. The tree \<open>stage1_tree\<close> is an aligned output of
  stage 1: one document, two paragraphs in each of the five files named by the stage 1
  language codes. The Consolidator looks the file stems up in \<open>LANG_MAPPING\<close>, whose
  keys \<open>va_ES\<close> and \<open>ga_ES\<close> are not the codes \<open>vl_ES\<close> and \<open>gl_ES\<close> that stage 1
  writes and stage 3 reads. The master files \<open>es\<close>, \<open>ca\<close> and \<open>eu\<close> get the two
  lines of the document; \<open>va\<close> and \<open>ga\<close> get none.
\<close>

theorem consolidate_stage1_tree_line_counts:
  "map_sum id master_line_counts (consolidate_parallel_texts stage1_tree)
   = Inr [(''es'', 2), (''ca'', 2), (''va'', 0), (''ga'', 0), (''eu'', 2)]"
  by (simp add: stage1_run count_defs)


theorem consolidate_aborts_counterexample:
  "consolidate_parallel_texts unreadable_tree = Inl (IsADirectoryError ''castellano.txt'')"
  by (simp add: consolidate_parallel_texts_def unreadable_tree_def
      consolidate_document_def initial_state_def eval_defs)


section \<open>Properties of the batch loops\<close>

lemma attempted_append: "attempted (xs @ ys) = attempted xs @ attempted ys"
  by (induction xs rule: attempted.induct) simp_all

lemma reported_errors_append: "reported_errors (xs @ ys) = reported_errors xs @ reported_errors ys"
  by (induction xs rule: reported_errors.induct) simp_all

lemma map_filter_append: "List.map_filter f (xs @ ys) = List.map_filter f xs @ List.map_filter f ys"
  by (simp add: List.map_filter_def)

lemma errors_of_append: "errors_of D (xs @ ys) = errors_of D xs @ errors_of D ys"
  by (simp add: errors_of_def map_filter_append)

lemma advanced_refl: "advanced D [] st st"
  by (simp add: advanced_def errors_of_def map_filter_simps)

lemma advanced_trans:
  "advanced D xs st st1 \<Longrightarrow> advanced D ys st1 st2 \<Longrightarrow> advanced D (xs @ ys) st st2"
  by (simp add: advanced_def errors_of_append)

lemma process_document_set_error:
  "process_document_set D doc_paths ob db f d fs = Inl e \<longleftrightarrow> doc_error D doc_paths = Some e"
  by (auto simp: process_document_set_def doc_error_def align_write_def Let_def split: sum.splits)

lemma process_one_advanced:
  "advanced D [(f, d, dp)] st (process_one D ob db f d dp st)"
proof (cases "process_document_set D dp ob db f d (disk st)")
  case (Inl e)
  then have "doc_error D dp = Some e" by (simp add: process_document_set_error)
  with Inl show ?thesis
    by (simp add: advanced_def process_one_def errors_of_def map_filter_simps
        attempted_append reported_errors_append)
next
  case (Inr fs')
  have "doc_error D dp = None"
  proof (cases "doc_error D dp")
    case None
    then show ?thesis .
  next
    case (Some e)
    then have "process_document_set D dp ob db f d (disk st) = Inl e"
      by (simp add: process_document_set_error)
    with Inr show ?thesis by simp
  qed
  with Inr show ?thesis
    by (simp add: advanced_def process_one_def errors_of_def map_filter_simps
        attempted_append reported_errors_append)
qed

lemma process_docs_advanced:
  "advanced D (map (\<lambda>(doc_name, doc_paths). (f, doc_name, doc_paths)) ds) st
     (fold (\<lambda>(doc_name, doc_paths) st. process_one D ob db f doc_name doc_paths st) ds st)"
proof (induction ds arbitrary: st)
  case Nil
  show ?case by (simp add: advanced_refl)
next
  case (Cons x ds)
  obtain d dp where x: "x = (d, dp)" by (cases x)
  from advanced_trans [OF process_one_advanced [of D f d dp st ob db]
      Cons.IH [of "process_one D ob db f d dp st"]]
  show ?case by (simp add: x)
qed

lemma process_all_advanced_aux:
  "advanced D (concat (map (\<lambda>(folder_name, doc_sets).
                    map (\<lambda>(doc_name, doc_paths). (folder_name, doc_name, doc_paths))
                      (sort_key fst doc_sets)) fs)) st
     (fold (\<lambda>(folder_name, doc_sets) st. process_folder D ob db folder_name doc_sets st) fs st)"
proof (induction fs arbitrary: st)
  case Nil
  show ?case by (simp add: advanced_refl)
next
  case (Cons x fs)
  obtain f ds where x: "x = (f, ds)" by (cases x)
  have a: "advanced D (map (\<lambda>(doc_name, doc_paths). (f, doc_name, doc_paths)) (sort_key fst ds))
             st (process_folder D ob db f ds st)"
    unfolding process_folder_def by (rule process_docs_advanced)
  from advanced_trans [OF a Cons.IH [of "process_folder D ob db f ds st"]]
  show ?case by (simp add: x)
qed

lemma process_all_advanced:
  "advanced D (document_sets all_sets) st (process_all D ob db all_sets st)"
  unfolding document_sets_def process_all_def by (rule process_all_advanced_aux)

text \<open>
  Claim C8, as amended to stage 1. In the batch loop of stage 1 every discovered document
  set is started, in sorted order, whatever happened to the sets before it; the errors
  reported are exactly the exceptions that processing a document set raises, each with
  its document name, in order; the count of failures is the number of reported errors,
  and successes and failures add up to the number of document sets. Stages 2 and 3 have
  no such handler: the counterexample is a tree on which the Consolidator stops with the
  exception of the first document and never reaches the second.
\<close>

theorem stage1_batch_continues:
  "doc_counter (main Document script_dir listing fs)
     = length (document_sets (discover_document_sets (script_dir @ [''original_texts'']) listing))
   \<and> attempted (printed (main Document script_dir listing fs))
     = map (\<lambda>(folder_name, doc_name, doc_paths). (folder_name, doc_name))
         (document_sets (discover_document_sets (script_dir @ [''original_texts'']) listing))
   \<and> reported_errors (printed (main Document script_dir listing fs))
     = errors_of Document
         (document_sets (discover_document_sets (script_dir @ [''original_texts'']) listing))
   \<and> failed (main Document script_dir listing fs)
     = length (reported_errors (printed (main Document script_dir listing fs)))
   \<and> successful (main Document script_dir listing fs) + failed (main Document script_dir listing fs)
     = length (document_sets (discover_document_sets (script_dir @ [''original_texts'']) listing))"
  using process_all_advanced [of Document
      "discover_document_sets (script_dir @ [''original_texts'']) listing"
      "\<lparr> disk = fs, doc_counter = 0, successful = 0, failed = 0, printed = [] \<rparr>"
      "script_dir @ [''extracted_paragraphs'']"
      "script_dir @ [''extracted_paragraphs'', ''discarded_texts'']"]
  by (simp add: main_def Let_def advanced_def)


lemma two_sets_discovered:
  "discover_document_sets [''original_texts''] two_sets_listing
   = [(''Actualidad'',
       [(''a'',
         [(''castellano'', [''original_texts'', ''Actualidad'', ''a_castellano.docx'']),
          (''ca_ES'', [''original_texts'', ''Actualidad'', ''a_ca-ES.docx'']),
          (''vl_ES'', [''original_texts'', ''Actualidad'', ''a_va_ES.docx'']),
          (''gl_ES'', [''original_texts'', ''Actualidad'', ''a_gl_ES.docx'']),
          (''eu_ES'', [''original_texts'', ''Actualidad'', ''a_eu_ES.docx''])]),
        (''b'',
         [(''castellano'', [''original_texts'', ''Actualidad'', ''b_castellano.docx'']),
          (''ca_ES'', [''original_texts'', ''Actualidad'', ''b_ca-ES.docx'']),
          (''vl_ES'', [''original_texts'', ''Actualidad'', ''b_va_ES.docx'']),
          (''gl_ES'', [''original_texts'', ''Actualidad'', ''b_gl_ES.docx'']),
          (''eu_ES'', [''original_texts'', ''Actualidad'', ''b_eu_ES.docx''])])])]"
  by (simp add: discover_document_sets_def folders_def two_sets_listing_def discover_folder_def
      glob_docx_def endswith_def startswith_def group_file_def classify_def language_patterns_def
      match_pattern_def)

lemma two_sets_documents:
  "map (\<lambda>(folder_name, doc_name, doc_paths). (folder_name, doc_name))
     (document_sets (discover_document_sets [''original_texts''] two_sets_listing))
   = [(''Actualidad'', ''a''), (''Actualidad'', ''b'')]"
  by (simp add: two_sets_discovered document_sets_def)

lemma example_extract: "fst (extract_paragraphs example_docx) = [''a'', ''b c'']"
  by (simp add: extract_paragraphs_def example_docx_def strip_def lstrip_def rstrip_def
      isspace_def)

lemma two_sets_errors:
  "errors_of flaky_Document
     (document_sets (discover_document_sets [''original_texts''] two_sets_listing))
   = [(''a'', PackageError ''Package not found'')]"
  by (simp add: two_sets_discovered document_sets_def errors_of_def map_filter_simps
      doc_error_def flaky_Document_def)

lemma two_sets_count:
  "length (document_sets (discover_document_sets [''original_texts''] two_sets_listing)) = 2"
  by (simp add: two_sets_discovered document_sets_def)

theorem stage1_batch_continues_witness:
  "attempted (printed (main flaky_Document [] two_sets_listing Map.empty))
     = [(''Actualidad'', ''a''), (''Actualidad'', ''b'')]
   \<and> reported_errors (printed (main flaky_Document [] two_sets_listing Map.empty))
     = [(''a'', PackageError ''Package not found'')]
   \<and> failed (main flaky_Document [] two_sets_listing Map.empty) = 1
   \<and> successful (main flaky_Document [] two_sets_listing Map.empty) = 1"
proof -
  let ?st = "main flaky_Document [] two_sets_listing Map.empty"
  note t = stage1_batch_continues [of flaky_Document "[]" two_sets_listing Map.empty,
      unfolded append_Nil]
  have a: "attempted (printed ?st)
        = map (\<lambda>(folder_name, doc_name, doc_paths). (folder_name, doc_name))
            (document_sets (discover_document_sets [''original_texts''] two_sets_listing))"
    by (rule t [THEN conjunct2, THEN conjunct1])
  have e: "reported_errors (printed ?st)
        = errors_of flaky_Document
            (document_sets (discover_document_sets [''original_texts''] two_sets_listing))"
    by (rule t [THEN conjunct2, THEN conjunct2, THEN conjunct1])
  have f: "failed ?st = length (reported_errors (printed ?st))"
    by (rule t [THEN conjunct2, THEN conjunct2, THEN conjunct2, THEN conjunct1])
  have s: "successful ?st + failed ?st
        = length (document_sets (discover_document_sets [''original_texts''] two_sets_listing))"
    by (rule t [THEN conjunct2, THEN conjunct2, THEN conjunct2, THEN conjunct2])
  from a have a': "attempted (printed ?st) = [(''Actualidad'', ''a''), (''Actualidad'', ''b'')]"
    by (simp only: two_sets_documents)
  from e have e': "reported_errors (printed ?st) = [(''a'', PackageError ''Package not found'')]"
    by (simp only: two_sets_errors)
  from f e' have f': "failed ?st = 1" by simp
  from s f' have s': "successful ?st = 1" by (simp add: two_sets_count)
  from a' e' f' s' show ?thesis by blast
qed


end
